theory Spec2Isabelle
  imports
    Complex_Main
    "HOL-Library.Word"
    "HOL-Library.Signed_Division"
    "HOL-Library.Monad_Syntax"
begin

section \<open>Gyro calibration and filtering: \<^verbatim>\<open>src/main/sensors/gyro.c\<close>\<close>

text \<open>
  The file keeps its state in globals and in two function-local statics; the model
  collects them in one record and passes it explicitly.  Arrays of
  \<^verbatim>\<open>XYZ_AXIS_COUNT\<close> elements are triples indexed by the axis enumeration, so an
  index is always in range, as it is in the loops of the source (which run over 0, 1, 2).
\<close>

subsection \<open>Machine integers\<close>

type_synonym uint8 = "8 word"
type_synonym uint16 = "16 word"
type_synonym int16 = "16 word"
type_synonym uint32 = "32 word"
type_synonym int32 = "32 word"

text \<open>
  C's \<^verbatim>\<open>/\<close> on \<^verbatim>\<open>int\<close> truncates towards zero.  Addition and subtraction on
  \<^verbatim>\<open>int32_t\<close> are modelled with two's complement wrap-around (what the target does;
  the C standard leaves signed overflow undefined).
\<close>

definition sdiv32 :: "int32 \<Rightarrow> int32 \<Rightarrow> int32" where
  "sdiv32 a b = word_of_int (sint a sdiv sint b)"

subsection \<open>Axes and arrays of three\<close>

datatype axis = X | Y | Z

datatype 'a xyz = Vec 'a 'a 'a

fun get_axis :: "'a xyz \<Rightarrow> axis \<Rightarrow> 'a" where
  "get_axis (Vec x y z) X = x"
| "get_axis (Vec x y z) Y = y"
| "get_axis (Vec x y z) Z = z"

fun set_axis :: "'a xyz \<Rightarrow> axis \<Rightarrow> 'a \<Rightarrow> 'a xyz" where
  "set_axis (Vec x y z) X v = Vec v y z"
| "set_axis (Vec x y z) Y v = Vec x v z"
| "set_axis (Vec x y z) Z v = Vec x y v"

subsection \<open>What the file uses and does not define\<close>

text \<open>
  The constants, the board alignment, the standard deviation helpers of
  \<^verbatim>\<open>common/maths\<close>, the filters of \<^verbatim>\<open>common/filter\<close> and the C operations on
  \<^verbatim>\<open>float\<close> are parameters of the model: \<open>'f\<close> stands for \<^verbatim>\<open>float\<close>, \<open>'v\<close> for
  \<^verbatim>\<open>stdev_t\<close>, \<open>'bq\<close> for \<^verbatim>\<open>biquadFilter_t\<close>, \<open>'pt\<close> for \<^verbatim>\<open>pt1Filter_t\<close> and \<open>'fir\<close>
  for \<^verbatim>\<open>firFilterDenoise_t\<close>.  A function that updates its argument through a pointer
  returns the new value.
\<close>

record ('v, 'f, 'bq, 'pt, 'fir) externals =
  CALIBRATING_GYRO_CYCLES :: uint32
  FILTER_BIQUAD :: uint8
  FILTER_PT1 :: uint8
  DEBUG_GYRO :: uint8
  DEBUG_NOTCH :: uint8
  alignSensors :: "int32 xyz \<Rightarrow> uint8 \<Rightarrow> int32 xyz"
  devClear :: "'v \<Rightarrow> 'v"
  devPush :: "'v \<Rightarrow> 'f \<Rightarrow> 'v"
  devStandardDeviation :: "'v \<Rightarrow> 'f"
  float_of_int32 :: "int32 \<Rightarrow> 'f"
  float_gt :: "'f \<Rightarrow> 'f \<Rightarrow> bool"
  lrintf :: "'f \<Rightarrow> int32"
  biquadFilterApply :: "'bq \<Rightarrow> 'f \<Rightarrow> 'bq \<times> 'f"
  pt1FilterApply4 :: "'pt \<Rightarrow> 'f \<Rightarrow> uint8 \<Rightarrow> 'f \<Rightarrow> 'pt \<times> 'f"
  firFilterDenoiseUpdate :: "'fir \<Rightarrow> 'f \<Rightarrow> 'fir \<times> 'f"

subsection \<open>The state\<close>

text \<open>
  \<open>g\<close> and \<open>var\<close> are the statics of \<^verbatim>\<open>performGyroCalibration\<close>;
  \<open>gyroMovementCalibrationThreshold\<close> is the field of \<^verbatim>\<open>*gyroConfig\<close> that the file
  reads; \<open>debug\<close> holds the three entries of \<^verbatim>\<open>debug[]\<close> that the file writes;
  \<open>beeps\<close> counts the calls of \<^verbatim>\<open>beeper(BEEPER_GYRO_CALIBRATED)\<close>.
  \<open>targetLooptime\<close> is the field of \<^verbatim>\<open>gyro\<close> that the file reads, a 32-bit unsigned
  number of microseconds.  \<^verbatim>\<open>gyroUseConfig\<close> and \<^verbatim>\<open>gyroInit\<close> only store the
  configuration and set up the filters; what they store is part of the state.
\<close>

record ('v, 'f, 'bq, 'pt, 'fir) gyro_state =
  targetLooptime :: uint32
  gyroAlign :: uint8
  gyroADC :: "int32 xyz"
  gyroADCf :: "'f xyz"
  gyroZero :: "int32 xyz"
  gyroMovementCalibrationThreshold :: uint8
  gyroFilterLPF :: "'bq xyz"
  gyroFilterNotch_1 :: "'bq xyz"
  gyroFilterNotch_2 :: "'bq xyz"
  gyroFilterPt1 :: "'pt xyz"
  gyroDenoiseState :: "'fir xyz"
  gyroSoftLpfType :: uint8
  gyroSoftNotchHz1 :: uint16
  gyroSoftNotchHz2 :: uint16
  gyroSoftLpfHz :: uint8
  calibratingG :: uint16
  gyroDt :: 'f
  g :: "int32 xyz"
  var :: "'v xyz"
  debugMode :: uint8
  debug :: "int16 xyz"
  beeps :: nat

subsection \<open>The calibration countdown\<close>

definition isGyroCalibrationComplete :: "('v, 'f, 'bq, 'pt, 'fir) gyro_state \<Rightarrow> bool" where
  "isGyroCalibrationComplete s \<longleftrightarrow> calibratingG s = 0"

definition isOnFinalGyroCalibrationCycle :: "('v, 'f, 'bq, 'pt, 'fir) gyro_state \<Rightarrow> bool" where
  "isOnFinalGyroCalibrationCycle s \<longleftrightarrow> calibratingG s = 1"

text \<open>
  The quotient and the product are computed in 32 bits, unsigned, and the result is
  converted to the return type \<^verbatim>\<open>uint16_t\<close>.  A division by zero is undefined
  behaviour: the model returns \<open>None\<close>.
\<close>

definition gyroCalculateCalibratingCycles ::
  "('v, 'f, 'bq, 'pt, 'fir) externals \<Rightarrow> ('v, 'f, 'bq, 'pt, 'fir) gyro_state \<Rightarrow> uint16 option"
where
  "gyroCalculateCalibratingCycles ext s =
     (if targetLooptime s = 0 then None
      else Some (ucast ((CALIBRATING_GYRO_CYCLES ext div targetLooptime s)
                          * CALIBRATING_GYRO_CYCLES ext)))"

definition isOnFirstGyroCalibrationCycle ::
  "('v, 'f, 'bq, 'pt, 'fir) externals \<Rightarrow> ('v, 'f, 'bq, 'pt, 'fir) gyro_state \<Rightarrow> bool option"
where
  "isOnFirstGyroCalibrationCycle ext s =
     do { n \<leftarrow> gyroCalculateCalibratingCycles ext s; Some (calibratingG s = n) }"

definition gyroSetCalibrationCycles ::
  "('v, 'f, 'bq, 'pt, 'fir) externals \<Rightarrow> ('v, 'f, 'bq, 'pt, 'fir) gyro_state
     \<Rightarrow> ('v, 'f, 'bq, 'pt, 'fir) gyro_state option"
where
  "gyroSetCalibrationCycles ext s =
     do { n \<leftarrow> gyroCalculateCalibratingCycles ext s; Some (s\<lparr>calibratingG := n\<rparr>) }"

subsection \<open>One calibration step\<close>

text \<open>
  The body of the loop over the axes either falls through to the next iteration or
  leaves the function by the \<^verbatim>\<open>return\<close> of the restart path.
\<close>

datatype 's flow = Next 's | Returned 's

text \<open>
  The offset written on the final cycle,
  \<^verbatim>\<open>(g[axis] + (cycles / 2)) / cycles\<close>: the cycle count is promoted to
  \<^verbatim>\<open>int\<close>, so both divisions are signed.
\<close>

definition calibratedZero :: "uint16 \<Rightarrow> int32 \<Rightarrow> int32" where
  "calibratedZero n gsum = sdiv32 (gsum + sdiv32 (ucast n) 2) (ucast n)"

definition calibrateAxis ::
  "('v, 'f, 'bq, 'pt, 'fir) externals \<Rightarrow> uint8 \<Rightarrow> axis \<Rightarrow> ('v, 'f, 'bq, 'pt, 'fir) gyro_state
     \<Rightarrow> ('v, 'f, 'bq, 'pt, 'fir) gyro_state flow option"
where
  "calibrateAxis ext threshold a s =
     do {
       first \<leftarrow> isOnFirstGyroCalibrationCycle ext s;
       let s1 = (if first
                 then s\<lparr>g := set_axis (g s) a 0,
                        var := set_axis (var s) a (devClear ext (get_axis (var s) a))\<rparr>
                 else s);
       let s2 = s1\<lparr>g := set_axis (g s1) a (get_axis (g s1) a + get_axis (gyroADC s1) a),
                   var := set_axis (var s1) a
                            (devPush ext (get_axis (var s1) a)
                               (float_of_int32 ext (get_axis (gyroADC s1) a)))\<rparr>;
       let s3 = s2\<lparr>gyroADC := set_axis (gyroADC s2) a 0,
                   gyroZero := set_axis (gyroZero s2) a 0\<rparr>;
       if isOnFinalGyroCalibrationCycle s3 then
         let dev = devStandardDeviation ext (get_axis (var s3) a) in
         if threshold \<noteq> 0 \<and> float_gt ext dev (float_of_int32 ext (ucast threshold)) then
           do { s4 \<leftarrow> gyroSetCalibrationCycles ext s3; Some (Returned s4) }
         else
           do {
             n \<leftarrow> gyroCalculateCalibratingCycles ext s3;
             if n = 0 then None
             else Some (Next (s3\<lparr>gyroZero :=
                          set_axis (gyroZero s3) a (calibratedZero n (get_axis (g s3) a))\<rparr>))
           }
       else Some (Next s3)
     }"

fun calibrateAxes ::
  "('v, 'f, 'bq, 'pt, 'fir) externals \<Rightarrow> uint8 \<Rightarrow> axis list \<Rightarrow> ('v, 'f, 'bq, 'pt, 'fir) gyro_state
     \<Rightarrow> ('v, 'f, 'bq, 'pt, 'fir) gyro_state option"
where
  "calibrateAxes ext threshold [] s =
     (let s1 = (if isOnFinalGyroCalibrationCycle s then s\<lparr>beeps := beeps s + 1\<rparr> else s)
      in Some (s1\<lparr>calibratingG := calibratingG s1 - 1\<rparr>))"
| "calibrateAxes ext threshold (a # as) s =
     (case calibrateAxis ext threshold a s of
        None \<Rightarrow> None
      | Some (Returned s') \<Rightarrow> Some s'
      | Some (Next s') \<Rightarrow> calibrateAxes ext threshold as s')"

definition performGyroCalibration ::
  "('v, 'f, 'bq, 'pt, 'fir) externals \<Rightarrow> uint8 \<Rightarrow> ('v, 'f, 'bq, 'pt, 'fir) gyro_state
     \<Rightarrow> ('v, 'f, 'bq, 'pt, 'fir) gyro_state option"
where
  "performGyroCalibration ext threshold s = calibrateAxes ext threshold [X, Y, Z] s"

subsection \<open>One tick\<close>

text \<open>The first half of \<^verbatim>\<open>gyroUpdate\<close>, up to the subtraction of the zero offset.\<close>

definition subtractZero :: "('v, 'f, 'bq, 'pt, 'fir) gyro_state \<Rightarrow> axis \<Rightarrow> ('v, 'f, 'bq, 'pt, 'fir) gyro_state" where
  "subtractZero s a =
     s\<lparr>gyroADC := set_axis (gyroADC s) a (get_axis (gyroADC s) a - get_axis (gyroZero s) a)\<rparr>"

definition gyroSample ::
  "('v, 'f, 'bq, 'pt, 'fir) externals \<Rightarrow> int16 xyz \<Rightarrow> ('v, 'f, 'bq, 'pt, 'fir) gyro_state
     \<Rightarrow> ('v, 'f, 'bq, 'pt, 'fir) gyro_state option"
where
  "gyroSample ext gyroADCRaw s =
     (let s1 = s\<lparr>gyroADC := set_axis (gyroADC s) X (scast (get_axis gyroADCRaw X))\<rparr>;
          s2 = s1\<lparr>gyroADC := set_axis (gyroADC s1) Y (scast (get_axis gyroADCRaw Y))\<rparr>;
          s3 = s2\<lparr>gyroADC := set_axis (gyroADC s2) Z (scast (get_axis gyroADCRaw Z))\<rparr>;
          s4 = s3\<lparr>gyroADC := alignSensors ext (gyroADC s3) (gyroAlign s3)\<rparr>
      in do {
        s5 \<leftarrow> (if \<not> isGyroCalibrationComplete s4
               then performGyroCalibration ext (gyroMovementCalibrationThreshold s4) s4
               else Some s4);
        Some (subtractZero (subtractZero (subtractZero s5 X) Y) Z)
      })"

text \<open>The second half: the software filters, one axis at a time.\<close>

text \<open>
  The body of the loop, statement by statement: the two debug taps, the selected low-pass
  stage, the two notch stages and the rounding of the result.
\<close>

definition tapGyro ::
  "('v, 'f, 'bq, 'pt, 'fir) externals \<Rightarrow> axis \<Rightarrow> ('v, 'f, 'bq, 'pt, 'fir) gyro_state
     \<Rightarrow> ('v, 'f, 'bq, 'pt, 'fir) gyro_state"
where
  "tapGyro ext a s =
     (if debugMode s = DEBUG_GYRO ext
      then s\<lparr>debug := set_axis (debug s) a (ucast (get_axis (gyroADC s) a))\<rparr>
      else s)"

definition lowpassStage ::
  "('v, 'f, 'bq, 'pt, 'fir) externals \<Rightarrow> axis \<Rightarrow> ('v, 'f, 'bq, 'pt, 'fir) gyro_state
     \<Rightarrow> ('v, 'f, 'bq, 'pt, 'fir) gyro_state"
where
  "lowpassStage ext a s =
     (let x = float_of_int32 ext (get_axis (gyroADC s) a) in
      if gyroSoftLpfType s = FILTER_BIQUAD ext then
        (let (f, y) = biquadFilterApply ext (get_axis (gyroFilterLPF s) a) x
         in s\<lparr>gyroFilterLPF := set_axis (gyroFilterLPF s) a f,
               gyroADCf := set_axis (gyroADCf s) a y\<rparr>)
      else if gyroSoftLpfType s = FILTER_PT1 ext then
        (let (f, y) = pt1FilterApply4 ext (get_axis (gyroFilterPt1 s) a) x
                        (gyroSoftLpfHz s) (gyroDt s)
         in s\<lparr>gyroFilterPt1 := set_axis (gyroFilterPt1 s) a f,
               gyroADCf := set_axis (gyroADCf s) a y\<rparr>)
      else
        (let (f, y) = firFilterDenoiseUpdate ext (get_axis (gyroDenoiseState s) a) x
         in s\<lparr>gyroDenoiseState := set_axis (gyroDenoiseState s) a f,
               gyroADCf := set_axis (gyroADCf s) a y\<rparr>))"

definition tapNotch ::
  "('v, 'f, 'bq, 'pt, 'fir) externals \<Rightarrow> axis \<Rightarrow> ('v, 'f, 'bq, 'pt, 'fir) gyro_state
     \<Rightarrow> ('v, 'f, 'bq, 'pt, 'fir) gyro_state"
where
  "tapNotch ext a s =
     (if debugMode s = DEBUG_NOTCH ext
      then s\<lparr>debug := set_axis (debug s) a (ucast (lrintf ext (get_axis (gyroADCf s) a)))\<rparr>
      else s)"

definition notchStage1 ::
  "('v, 'f, 'bq, 'pt, 'fir) externals \<Rightarrow> axis \<Rightarrow> ('v, 'f, 'bq, 'pt, 'fir) gyro_state
     \<Rightarrow> ('v, 'f, 'bq, 'pt, 'fir) gyro_state"
where
  "notchStage1 ext a s =
     (if gyroSoftNotchHz1 s \<noteq> 0 then
        (let (f, y) = biquadFilterApply ext (get_axis (gyroFilterNotch_1 s) a)
                        (get_axis (gyroADCf s) a)
         in s\<lparr>gyroFilterNotch_1 := set_axis (gyroFilterNotch_1 s) a f,
               gyroADCf := set_axis (gyroADCf s) a y\<rparr>)
      else s)"

definition notchStage2 ::
  "('v, 'f, 'bq, 'pt, 'fir) externals \<Rightarrow> axis \<Rightarrow> ('v, 'f, 'bq, 'pt, 'fir) gyro_state
     \<Rightarrow> ('v, 'f, 'bq, 'pt, 'fir) gyro_state"
where
  "notchStage2 ext a s =
     (if gyroSoftNotchHz2 s \<noteq> 0 then
        (let (f, y) = biquadFilterApply ext (get_axis (gyroFilterNotch_2 s) a)
                        (get_axis (gyroADCf s) a)
         in s\<lparr>gyroFilterNotch_2 := set_axis (gyroFilterNotch_2 s) a f,
               gyroADCf := set_axis (gyroADCf s) a y\<rparr>)
      else s)"

definition roundOutput ::
  "('v, 'f, 'bq, 'pt, 'fir) externals \<Rightarrow> axis \<Rightarrow> ('v, 'f, 'bq, 'pt, 'fir) gyro_state
     \<Rightarrow> ('v, 'f, 'bq, 'pt, 'fir) gyro_state"
where
  "roundOutput ext a s =
     s\<lparr>gyroADC := set_axis (gyroADC s) a (lrintf ext (get_axis (gyroADCf s) a))\<rparr>"

definition filterAxis ::
  "('v, 'f, 'bq, 'pt, 'fir) externals \<Rightarrow> ('v, 'f, 'bq, 'pt, 'fir) gyro_state \<Rightarrow> axis
     \<Rightarrow> ('v, 'f, 'bq, 'pt, 'fir) gyro_state"
where
  "filterAxis ext s a =
     roundOutput ext a
       (notchStage2 ext a (notchStage1 ext a (tapNotch ext a (lowpassStage ext a (tapGyro ext a s)))))"

definition bypassAxis ::
  "('v, 'f, 'bq, 'pt, 'fir) externals \<Rightarrow> ('v, 'f, 'bq, 'pt, 'fir) gyro_state \<Rightarrow> axis
     \<Rightarrow> ('v, 'f, 'bq, 'pt, 'fir) gyro_state"
where
  "bypassAxis ext s a =
     s\<lparr>gyroADCf := set_axis (gyroADCf s) a (float_of_int32 ext (get_axis (gyroADC s) a))\<rparr>"

definition gyroFilter ::
  "('v, 'f, 'bq, 'pt, 'fir) externals \<Rightarrow> ('v, 'f, 'bq, 'pt, 'fir) gyro_state
     \<Rightarrow> ('v, 'f, 'bq, 'pt, 'fir) gyro_state"
where
  "gyroFilter ext s =
     (if gyroSoftLpfHz s \<noteq> 0 then foldl (filterAxis ext) s [X, Y, Z]
      else foldl (bypassAxis ext) s [X, Y, Z])"

text \<open>
  \<^verbatim>\<open>gyroUpdate\<close>: the argument is what \<^verbatim>\<open>gyro.read\<close> delivers, \<open>None\<close> when it
  returns false.
\<close>

definition gyroUpdate ::
  "('v, 'f, 'bq, 'pt, 'fir) externals \<Rightarrow> int16 xyz option \<Rightarrow> ('v, 'f, 'bq, 'pt, 'fir) gyro_state
     \<Rightarrow> ('v, 'f, 'bq, 'pt, 'fir) gyro_state option"
where
  "gyroUpdate ext rd s =
     (case rd of
        None \<Rightarrow> Some s
      | Some gyroADCRaw \<Rightarrow> do { s1 \<leftarrow> gyroSample ext gyroADCRaw s; Some (gyroFilter ext s1) })"

text \<open>A sequence of ticks, one sensor read each.\<close>

fun gyroUpdates ::
  "('v, 'f, 'bq, 'pt, 'fir) externals \<Rightarrow> int16 xyz option list \<Rightarrow> ('v, 'f, 'bq, 'pt, 'fir) gyro_state
     \<Rightarrow> ('v, 'f, 'bq, 'pt, 'fir) gyro_state option"
where
  "gyroUpdates ext [] s = Some s"
| "gyroUpdates ext (rd # rds) s =
     (case gyroUpdate ext rd s of None \<Rightarrow> None | Some s' \<Rightarrow> gyroUpdates ext rds s')"

subsection \<open>Notions used in the statements\<close>

text \<open>An array of three given by its entries.\<close>

definition vec_of :: "(axis \<Rightarrow> 'a) \<Rightarrow> 'a xyz" where
  "vec_of f = Vec (f X) (f Y) (f Z)"

text \<open>
  The sample of a tick after \<^verbatim>\<open>alignSensors\<close>, the state that holds it in
  \<^verbatim>\<open>gyroADC\<close>, and the subtraction of the zero offset on the three axes.
\<close>

definition gyroAligned ::
  "('v, 'f, 'bq, 'pt, 'fir) externals \<Rightarrow> int16 xyz \<Rightarrow> ('v, 'f, 'bq, 'pt, 'fir) gyro_state \<Rightarrow> int32 xyz"
where
  "gyroAligned ext gyroADCRaw s =
     alignSensors ext (vec_of (\<lambda>a. scast (get_axis gyroADCRaw a))) (gyroAlign s)"

definition sampled ::
  "('v, 'f, 'bq, 'pt, 'fir) externals \<Rightarrow> int16 xyz \<Rightarrow> ('v, 'f, 'bq, 'pt, 'fir) gyro_state
     \<Rightarrow> ('v, 'f, 'bq, 'pt, 'fir) gyro_state"
where
  "sampled ext gyroADCRaw s = s\<lparr>gyroADC := gyroAligned ext gyroADCRaw s\<rparr>"

definition zeroSubtracted :: "('v, 'f, 'bq, 'pt, 'fir) gyro_state \<Rightarrow> ('v, 'f, 'bq, 'pt, 'fir) gyro_state" where
  "zeroSubtracted s =
     s\<lparr>gyroADC := vec_of (\<lambda>a. get_axis (gyroADC s) a - get_axis (gyroZero s) a)\<rparr>"

text \<open>
  What one iteration of the calibration loop computes for its axis: whether the countdown
  is on the first cycle of a window, the sum and the deviation accumulator after the
  sample in \<^verbatim>\<open>gyroADC\<close> has been added, and the test of the restart path.
\<close>

definition firstCycle ::
  "('v, 'f, 'bq, 'pt, 'fir) externals \<Rightarrow> ('v, 'f, 'bq, 'pt, 'fir) gyro_state \<Rightarrow> bool"
where
  "firstCycle ext s \<longleftrightarrow> gyroCalculateCalibratingCycles ext s = Some (calibratingG s)"

definition accumulatedSum ::
  "('v, 'f, 'bq, 'pt, 'fir) externals \<Rightarrow> ('v, 'f, 'bq, 'pt, 'fir) gyro_state \<Rightarrow> axis \<Rightarrow> int32"
where
  "accumulatedSum ext s a =
     (if firstCycle ext s then 0 else get_axis (g s) a) + get_axis (gyroADC s) a"

definition accumulatedVar ::
  "('v, 'f, 'bq, 'pt, 'fir) externals \<Rightarrow> ('v, 'f, 'bq, 'pt, 'fir) gyro_state \<Rightarrow> axis \<Rightarrow> 'v"
where
  "accumulatedVar ext s a =
     devPush ext (if firstCycle ext s then devClear ext (get_axis (var s) a) else get_axis (var s) a)
       (float_of_int32 ext (get_axis (gyroADC s) a))"

definition movementDetected :: "('v, 'f, 'bq, 'pt, 'fir) externals \<Rightarrow> uint8 \<Rightarrow> 'v \<Rightarrow> bool" where
  "movementDetected ext threshold v \<longleftrightarrow>
     threshold \<noteq> 0 \<and>
     float_gt ext (devStandardDeviation ext v) (float_of_int32 ext (ucast threshold))"

definition accumulated ::
  "('v, 'f, 'bq, 'pt, 'fir) externals \<Rightarrow> ('v, 'f, 'bq, 'pt, 'fir) gyro_state \<Rightarrow> axis
     \<Rightarrow> ('v, 'f, 'bq, 'pt, 'fir) gyro_state"
where
  "accumulated ext s a =
     s\<lparr>g := set_axis (g s) a (accumulatedSum ext s a),
       var := set_axis (var s) a (accumulatedVar ext s a),
       gyroADC := set_axis (gyroADC s) a 0,
       gyroZero := set_axis (gyroZero s) a 0\<rparr>"

definition committed ::
  "('v, 'f, 'bq, 'pt, 'fir) externals \<Rightarrow> uint16 \<Rightarrow> ('v, 'f, 'bq, 'pt, 'fir) gyro_state \<Rightarrow> axis
     \<Rightarrow> ('v, 'f, 'bq, 'pt, 'fir) gyro_state"
where
  "committed ext n s a =
     (accumulated ext s a)\<lparr>gyroZero :=
        set_axis (gyroZero s) a (calibratedZero n (accumulatedSum ext s a))\<rparr>"

text \<open>The fields that the calibration step never writes.\<close>

definition calibrationFrame ::
  "('v, 'f, 'bq, 'pt, 'fir) gyro_state \<Rightarrow> ('v, 'f, 'bq, 'pt, 'fir) gyro_state \<Rightarrow> bool"
where
  "calibrationFrame s s' \<longleftrightarrow>
     targetLooptime s' = targetLooptime s \<and>
     gyroAlign s' = gyroAlign s \<and>
     gyroADCf s' = gyroADCf s \<and>
     gyroMovementCalibrationThreshold s' = gyroMovementCalibrationThreshold s \<and>
     gyroFilterLPF s' = gyroFilterLPF s \<and>
     gyroFilterNotch_1 s' = gyroFilterNotch_1 s \<and>
     gyroFilterNotch_2 s' = gyroFilterNotch_2 s \<and>
     gyroFilterPt1 s' = gyroFilterPt1 s \<and>
     gyroDenoiseState s' = gyroDenoiseState s \<and>
     gyroSoftLpfType s' = gyroSoftLpfType s \<and>
     gyroSoftNotchHz1 s' = gyroSoftNotchHz1 s \<and>
     gyroSoftNotchHz2 s' = gyroSoftNotchHz2 s \<and>
     gyroSoftLpfHz s' = gyroSoftLpfHz s \<and>
     gyroDt s' = gyroDt s \<and>
     debugMode s' = debugMode s \<and>
     debug s' = debug s"

text \<open>
  The state in the middle of a calibration window, \<open>k\<close> ticks after its start, when
  every tick delivered the aligned sample \<open>al\<close> and the low-pass filter is disabled.
\<close>

definition pushes :: "('v, 'f, 'bq, 'pt, 'fir) externals \<Rightarrow> nat \<Rightarrow> 'f \<Rightarrow> 'v \<Rightarrow> 'v" where
  "pushes ext k x v = ((\<lambda>w. devPush ext w x) ^^ k) v"

definition midCalibration ::
  "('v, 'f, 'bq, 'pt, 'fir) externals \<Rightarrow> nat \<Rightarrow> int32 xyz \<Rightarrow> ('v, 'f, 'bq, 'pt, 'fir) gyro_state
     \<Rightarrow> ('v, 'f, 'bq, 'pt, 'fir) gyro_state"
where
  "midCalibration ext k al s =
     s\<lparr>g := vec_of (\<lambda>a. of_nat k * get_axis al a),
       var := vec_of (\<lambda>a. pushes ext k (float_of_int32 ext (get_axis al a))
                              (devClear ext (get_axis (var s) a))),
       gyroADC := Vec 0 0 0, gyroZero := Vec 0 0 0,
       calibratingG := calibratingG s - of_nat k,
       gyroADCf := vec_of (\<lambda>a. float_of_int32 ext 0)\<rparr>"

text \<open>
  Two states that differ at most in the accumulators \<open>g\<close> and \<open>var\<close>; on the axes
  outside \<open>U\<close> the sums agree and the deviation accumulators are related by \<open>E\<close>.  Two
  such states are \<open>windowsApart\<close> when every axis may differ as long as the countdown stands
  on the first cycle of a window.
\<close>

definition sameButAccumulators ::
  "('v, 'f, 'bq, 'pt, 'fir) gyro_state \<Rightarrow> ('v, 'f, 'bq, 'pt, 'fir) gyro_state \<Rightarrow> bool"
where
  "sameButAccumulators s t \<longleftrightarrow> t\<lparr>g := g s, var := var s\<rparr> = s"

definition accumulatorsApart ::
  "('v \<Rightarrow> 'v \<Rightarrow> bool) \<Rightarrow> axis set \<Rightarrow> ('v, 'f, 'bq, 'pt, 'fir) gyro_state
     \<Rightarrow> ('v, 'f, 'bq, 'pt, 'fir) gyro_state \<Rightarrow> bool"
where
  "accumulatorsApart E U s t \<longleftrightarrow>
     t\<lparr>g := g s, var := var s\<rparr> = s \<and>
     (\<forall>a. a \<notin> U \<longrightarrow>
        get_axis (g t) a = get_axis (g s) a \<and> E (get_axis (var s) a) (get_axis (var t) a))"

definition windowsApart ::
  "('v, 'f, 'bq, 'pt, 'fir) externals \<Rightarrow> ('v \<Rightarrow> 'v \<Rightarrow> bool) \<Rightarrow> ('v, 'f, 'bq, 'pt, 'fir) gyro_state
     \<Rightarrow> ('v, 'f, 'bq, 'pt, 'fir) gyro_state \<Rightarrow> bool"
where
  "windowsApart ext E s t \<longleftrightarrow>
     accumulatorsApart E (if firstCycle ext s then UNIV else {}) s t"

subsection \<open>The roundings that the specification names\<close>

text \<open>
  \<open>round_half_up acc n\<close> is the mean \<open>acc / n\<close> rounded to the nearest integer, halves
  upwards; \<open>round_nearest_ties_away_from_zero\<close> rounds halves away from zero.
\<close>

definition round_half_up :: "int \<Rightarrow> int \<Rightarrow> int" where
  "round_half_up acc n = \<lfloor>real_of_int acc / real_of_int n + 1 / 2\<rfloor>"

definition round_nearest_ties_away_from_zero :: "real \<Rightarrow> int" where
  "round_nearest_ties_away_from_zero x =
     (if 0 \<le> x then \<lfloor>x + 1 / 2\<rfloor> else - \<lfloor>- x + 1 / 2\<rfloor>)"

subsection \<open>An instance of the parameters\<close>

text \<open>
  The instance computes with real numbers where the firmware computes with
  \<^verbatim>\<open>float\<close>; the values that occur in the scenarios below (small integers and
  halves) are the same in both.
\<close>

text \<open>
  Modelled from the spec: \<^verbatim>\<open>stdev_t\<close> of \<^verbatim>\<open>common/maths\<close>, which is not part of
  the sources at hand.  The specification describes an accumulator that updates mean and
  variance one sample at a time, in constant memory: the number of samples, their mean and
  the sum of their squared distances from the mean.
\<close>

record stdev =
  m_n :: nat
  m_mean :: real
  m_S :: real

text \<open>
  Modelled from the spec: \<^verbatim>\<open>devClear\<close> of \<^verbatim>\<open>common/maths\<close>, missing from the
  sources; it resets the accumulator.
\<close>

definition devClear_spec :: "stdev \<Rightarrow> stdev" where
  "devClear_spec v = \<lparr>m_n = 0, m_mean = 0, m_S = 0\<rparr>"

text \<open>
  Modelled from the spec: \<^verbatim>\<open>devPush\<close> of \<^verbatim>\<open>common/maths\<close>, missing from the
  sources; the incremental update of mean and variance by one sample.
\<close>

definition devPush_spec :: "stdev \<Rightarrow> real \<Rightarrow> stdev" where
  "devPush_spec v x =
     (let n = m_n v + 1 in
      if n = 1 then \<lparr>m_n = 1, m_mean = x, m_S = 0\<rparr>
      else (let mean' = m_mean v + (x - m_mean v) / real n
            in \<lparr>m_n = n, m_mean = mean', m_S = m_S v + (x - m_mean v) * (x - mean')\<rparr>))"

text \<open>
  Modelled from the spec: \<^verbatim>\<open>devVariance\<close> and \<^verbatim>\<open>devStandardDeviation\<close> of
  \<^verbatim>\<open>common/maths\<close>, missing from the sources; the variance of the samples and its
  square root.
\<close>

definition devVariance_spec :: "stdev \<Rightarrow> real" where
  "devVariance_spec v = (if 1 < m_n v then m_S v / real (m_n v - 1) else 0)"

definition devStandardDeviation_spec :: "stdev \<Rightarrow> real" where
  "devStandardDeviation_spec v = sqrt (devVariance_spec v)"

text \<open>
  \<^verbatim>\<open>lrintf\<close> of the C library rounds to an integer in the current rounding direction;
  the firmware never changes the direction, so it is the default one, to nearest with
  halves to the even neighbour.
\<close>

definition round_half_even :: "real \<Rightarrow> int" where
  "round_half_even x =
     (let f = \<lfloor>x\<rfloor>; d = x - of_int f in
      if d < 1 / 2 then f else if 1 / 2 < d then f + 1 else if even f then f else f + 1)"

definition lrintf_libm :: "real \<Rightarrow> int32" where
  "lrintf_libm x = word_of_int (round_half_even x)"

text \<open>
  Modelled from the spec: \<^verbatim>\<open>biquadFilter_t\<close> and \<^verbatim>\<open>biquadFilterApply\<close> of
  \<^verbatim>\<open>common/filter\<close>, which are not part of the sources at hand.  The second-order
  stage is the difference equation over its coefficients and its delay line.
\<close>

record biquad =
  b0 :: real
  b1 :: real
  b2 :: real
  a1 :: real
  a2 :: real
  x1 :: real
  x2 :: real
  y1 :: real
  y2 :: real

definition biquadFilterApply_spec :: "biquad \<Rightarrow> real \<Rightarrow> biquad \<times> real" where
  "biquadFilterApply_spec f x =
     (let y = b0 f * x + b1 f * x1 f + b2 f * x2 f - a1 f * y1 f - a2 f * y2 f
      in (f\<lparr>x2 := x1 f, x1 := x, y2 := y1 f, y1 := y\<rparr>, y))"

text \<open>
  Modelled from the spec: \<^verbatim>\<open>pt1FilterApply4\<close> of \<^verbatim>\<open>common/filter\<close>, missing
  from the sources.  The single-pole stage derives its coefficient from the cutoff
  frequency and the sample interval at every sample.
\<close>

definition pt1FilterApply4_spec :: "real \<Rightarrow> real \<Rightarrow> uint8 \<Rightarrow> real \<Rightarrow> real \<times> real" where
  "pt1FilterApply4_spec state x f_cut dT =
     (let RC = 1 / (2 * pi * real (unat f_cut));
          k = dT / (RC + dT);
          state' = state + k * (x - state)
      in (state', state'))"

text \<open>
  Modelled from the spec: \<^verbatim>\<open>firFilterDenoiseUpdate\<close> of \<^verbatim>\<open>common/filter\<close>,
  missing from the sources.  The denoiser smooths over a fixed window of recent samples;
  it is taken to be their average.
\<close>

definition firFilterDenoiseUpdate_spec :: "real list \<Rightarrow> real \<Rightarrow> real list \<times> real" where
  "firFilterDenoiseUpdate_spec window x =
     (let window' = x # butlast window in (window', sum_list window' / real (length window')))"

text \<open>
  Modelled from the spec: the constants and \<^verbatim>\<open>alignSensors\<close>, declared outside the
  sources at hand.  The base cycle count is the 1000 of the specification's scenario; the
  board is mounted without rotation, so that \<^verbatim>\<open>alignSensors\<close> leaves the sample as
  it is; the values of the enumerations only have to be distinct.  The conversion from
  \<^verbatim>\<open>int32_t\<close> to \<^verbatim>\<open>float\<close> is exact below \<open>2 ^ 24\<close> in absolute value.
\<close>

definition ideal :: "(stdev, real, biquad, real, real list) externals" where
  "ideal =
     \<lparr>CALIBRATING_GYRO_CYCLES = 1000, FILTER_BIQUAD = 1, FILTER_PT1 = 0,
      DEBUG_GYRO = 3, DEBUG_NOTCH = 8,
      alignSensors = (\<lambda>dest rotation. dest),
      devClear = devClear_spec, devPush = devPush_spec,
      devStandardDeviation = devStandardDeviation_spec,
      float_of_int32 = (\<lambda>i. real_of_int (sint i)),
      float_gt = (\<lambda>x y. y < x),
      lrintf = lrintf_libm,
      biquadFilterApply = biquadFilterApply_spec,
      pt1FilterApply4 = pt1FilterApply4_spec,
      firFilterDenoiseUpdate = firFilterDenoiseUpdate_spec\<rparr>"

subsection \<open>Scenarios\<close>

text \<open>
  The state after start-up, with a loop time of 1000 and every static still zero, for a
  given movement threshold; the software filters are not configured.
\<close>

definition unconfigured :: biquad where
  "unconfigured = \<lparr>b0 = 0, b1 = 0, b2 = 0, a1 = 0, a2 = 0, x1 = 0, x2 = 0, y1 = 0, y2 = 0\<rparr>"

definition poweron :: "uint8 \<Rightarrow> (stdev, real, biquad, real, real list) gyro_state" where
  "poweron threshold =
     \<lparr>targetLooptime = 1000, gyroAlign = 0,
      gyroADC = Vec 0 0 0, gyroADCf = Vec 0 0 0, gyroZero = Vec 0 0 0,
      gyroMovementCalibrationThreshold = threshold,
      gyroFilterLPF = Vec unconfigured unconfigured unconfigured,
      gyroFilterNotch_1 = Vec unconfigured unconfigured unconfigured,
      gyroFilterNotch_2 = Vec unconfigured unconfigured unconfigured,
      gyroFilterPt1 = Vec 0 0 0,
      gyroDenoiseState = Vec [] [] [],
      gyroSoftLpfType = 0, gyroSoftNotchHz1 = 0, gyroSoftNotchHz2 = 0, gyroSoftLpfHz = 0,
      calibratingG = 0, gyroDt = 0,
      g = Vec 0 0 0,
      var = Vec \<lparr>m_n = 0, m_mean = 0, m_S = 0\<rparr> \<lparr>m_n = 0, m_mean = 0, m_S = 0\<rparr>
                \<lparr>m_n = 0, m_mean = 0, m_S = 0\<rparr>,
      debugMode = 0, debug = Vec 0 0 0, beeps = 0\<rparr>"

text \<open>
  The vehicle at rest delivers \<open>steadySample\<close> on every tick; \<open>movedSample\<close> is a
  sample taken while it turns about the second axis.  \<open>steadyRun threshold k\<close> starts a
  calibration after start-up and runs \<open>k\<close> ticks at rest; \<open>lastCycle threshold\<close> is the
  state that this reaches after 999 ticks.
\<close>

definition steadySample :: "int16 xyz" where
  "steadySample = Vec 100 (- 50) 0"

definition movedSample :: "int16 xyz" where
  "movedSample = Vec 100 9950 0"

text \<open>\<open>jerkSample\<close> is a sample taken while the vehicle turns about the first axis.\<close>

definition jerkSample :: "int16 xyz" where
  "jerkSample = Vec 9950 (- 50) 7"

definition steadyRun :: "uint8 \<Rightarrow> nat \<Rightarrow> (stdev, real, biquad, real, real list) gyro_state option" where
  "steadyRun threshold k =
     Option.bind (gyroSetCalibrationCycles ideal (poweron threshold))
       (gyroUpdates ideal (replicate k (Some steadySample)))"

definition lastCycle :: "uint8 \<Rightarrow> (stdev, real, biquad, real, real list) gyro_state" where
  "lastCycle threshold =
     midCalibration ideal 999 (Vec 100 (- 50) 0) ((poweron threshold)\<lparr>calibratingG := 1000\<rparr>)"

text \<open>
  Two configurations after start-up with the calibration complete: both notch filters
  configured and the low-pass filter disabled; and the denoiser selected as low-pass filter
  with a window of two samples.  \<open>turnSample\<close> is a first sample of a slow turn.
\<close>

definition notchesConfigured :: "(stdev, real, biquad, real, real list) gyro_state" where
  "notchesConfigured = (poweron 0)\<lparr>gyroSoftNotchHz1 := 400, gyroSoftNotchHz2 := 200\<rparr>"

definition denoising :: "(stdev, real, biquad, real, real list) gyro_state" where
  "denoising =
     (poweron 0)\<lparr>gyroSoftLpfHz := 100, gyroSoftLpfType := 2,
                 gyroDenoiseState := Vec [0, 0] [0, 0] [0, 0]\<rparr>"

definition turnSample :: "int16 xyz" where
  "turnSample = Vec 1 0 0"

section \<open>Properties\<close>

subsection \<open>One step of the calibration loop\<close>

lemma get_set_axis [simp]: "get_axis (set_axis v a x) b = (if a = b then x else get_axis v b)"
  by (cases v; cases a; cases b) simp_all

lemma set_set_axis [simp]: "set_axis (set_axis v a x) a y = set_axis v a y"
  by (cases v; cases a) simp_all

lemma calibrateAxis_eq:
  assumes "gyroCalculateCalibratingCycles ext s = Some n"
  shows "calibrateAxis ext threshold a s =
     (if calibratingG s = 1 then
        if movementDetected ext threshold (accumulatedVar ext s a)
        then Some (Returned ((accumulated ext s a)\<lparr>calibratingG := n\<rparr>))
        else if n = 0 then None
        else Some (Next ((accumulated ext s a)\<lparr>gyroZero :=
               set_axis (gyroZero s) a (calibratedZero n (accumulatedSum ext s a))\<rparr>))
      else Some (Next (accumulated ext s a)))"
proof -
  have n: "targetLooptime s \<noteq> 0" using assms by (auto simp: gyroCalculateCalibratingCycles_def split: if_splits)
  have f: "isOnFirstGyroCalibrationCycle ext s = Some (firstCycle ext s)"
    using assms by (auto simp: isOnFirstGyroCalibrationCycle_def firstCycle_def)
  have c: "gyroCalculateCalibratingCycles ext t = Some n" if "targetLooptime t = targetLooptime s" for t :: "('a, 'b, 'c, 'd, 'e) gyro_state"
    using assms that by (auto simp: gyroCalculateCalibratingCycles_def split: if_splits)
  show ?thesis
    unfolding calibrateAxis_def f
    by (simp add: c gyroSetCalibrationCycles_def isOnFinalGyroCalibrationCycle_def Let_def
      accumulated_def accumulatedSum_def accumulatedVar_def movementDetected_def)
qed

lemma set_axis_all: "set_axis (set_axis (set_axis v X a) Y b) Z c = Vec a b c"
  by (cases v) simp

lemma accumulated_simps [simp]:
  "targetLooptime (accumulated ext s a) = targetLooptime s"
  "calibratingG (accumulated ext s a) = calibratingG s"
  "beeps (accumulated ext s a) = beeps s"
  "gyroADC (accumulated ext s a) = set_axis (gyroADC s) a 0"
  "gyroZero (accumulated ext s a) = set_axis (gyroZero s) a 0"
  "g (accumulated ext s a) = set_axis (g s) a (accumulatedSum ext s a)"
  "var (accumulated ext s a) = set_axis (var s) a (accumulatedVar ext s a)"
  by (simp_all add: accumulated_def)

lemma cycles_accumulated [simp]:
  "gyroCalculateCalibratingCycles ext (accumulated ext s a) = gyroCalculateCalibratingCycles ext s"
  by (simp add: gyroCalculateCalibratingCycles_def)

lemma accumulatedSum_accumulated [simp]:
  "a \<noteq> b \<Longrightarrow> accumulatedSum ext (accumulated ext s a) b = accumulatedSum ext s b"
  by (simp add: accumulatedSum_def firstCycle_def gyroCalculateCalibratingCycles_def)

lemma accumulatedVar_accumulated [simp]:
  "a \<noteq> b \<Longrightarrow> accumulatedVar ext (accumulated ext s a) b = accumulatedVar ext s b"
  by (simp add: accumulatedVar_def firstCycle_def gyroCalculateCalibratingCycles_def)

lemma accumulated3:
  "accumulated ext (accumulated ext (accumulated ext s X) Y) Z =
     s\<lparr>g := vec_of (accumulatedSum ext s), var := vec_of (accumulatedVar ext s),
             gyroADC := Vec 0 0 0, gyroZero := Vec 0 0 0\<rparr>"
proof -
  have "accumulated ext (accumulated ext (accumulated ext s X) Y) Z =
    (accumulated ext (accumulated ext s X) Y)\<lparr>
       g := set_axis (g (accumulated ext (accumulated ext s X) Y)) Z (accumulatedSum ext s Z),
       var := set_axis (var (accumulated ext (accumulated ext s X) Y)) Z (accumulatedVar ext s Z),
       gyroADC := set_axis (gyroADC (accumulated ext (accumulated ext s X) Y)) Z 0,
       gyroZero := set_axis (gyroZero (accumulated ext (accumulated ext s X) Y)) Z 0\<rparr>"
    by (subst accumulated_def) simp
  also have "\<dots> = s\<lparr>g := vec_of (accumulatedSum ext s), var := vec_of (accumulatedVar ext s),
             gyroADC := Vec 0 0 0, gyroZero := Vec 0 0 0\<rparr>"
    apply simp
    apply (simp add: accumulated_def set_axis_all vec_of_def)
    done
  finally show ?thesis .
qed

lemma committed_simps [simp]:
  "targetLooptime (committed ext n s a) = targetLooptime s"
  "calibratingG (committed ext n s a) = calibratingG s"
  "beeps (committed ext n s a) = beeps s"
  "gyroADC (committed ext n s a) = set_axis (gyroADC s) a 0"
  "gyroZero (committed ext n s a) = set_axis (gyroZero s) a (calibratedZero n (accumulatedSum ext s a))"
  "g (committed ext n s a) = set_axis (g s) a (accumulatedSum ext s a)"
  "var (committed ext n s a) = set_axis (var s) a (accumulatedVar ext s a)"
  by (simp_all add: committed_def)

lemma cycles_committed [simp]:
  "gyroCalculateCalibratingCycles ext (committed ext n s a) = gyroCalculateCalibratingCycles ext s"
  by (simp add: gyroCalculateCalibratingCycles_def)

lemma accumulatedSum_committed [simp]:
  "a \<noteq> b \<Longrightarrow> accumulatedSum ext (committed ext n s a) b = accumulatedSum ext s b"
  by (simp add: accumulatedSum_def firstCycle_def gyroCalculateCalibratingCycles_def)

lemma accumulatedVar_committed [simp]:
  "a \<noteq> b \<Longrightarrow> accumulatedVar ext (committed ext n s a) b = accumulatedVar ext s b"
  by (simp add: accumulatedVar_def firstCycle_def gyroCalculateCalibratingCycles_def)

lemma calibrateAxis_final:
  assumes "gyroCalculateCalibratingCycles ext s = Some n" "calibratingG s = 1"
  shows "calibrateAxis ext threshold a s =
     (if movementDetected ext threshold (accumulatedVar ext s a)
      then Some (Returned ((accumulated ext s a)\<lparr>calibratingG := n\<rparr>))
      else if n = 0 then None else Some (Next (committed ext n s a)))"
  using assms by (simp add: calibrateAxis_eq committed_def)

lemma calibrateAxis_nonfinal:
  assumes "gyroCalculateCalibratingCycles ext s = Some n" "calibratingG s \<noteq> 1"
  shows "calibrateAxis ext threshold a s = Some (Next (accumulated ext s a))"
  using assms by (simp add: calibrateAxis_eq)

lemma committed3:
  "committed ext n (committed ext n (committed ext n s X) Y) Z =
     s\<lparr>g := vec_of (accumulatedSum ext s), var := vec_of (accumulatedVar ext s),
             gyroADC := Vec 0 0 0,
             gyroZero := vec_of (\<lambda>a. calibratedZero n (accumulatedSum ext s a))\<rparr>"
proof -
  let ?t = "committed ext n (committed ext n s X) Y"
  have "committed ext n ?t Z =
    ?t\<lparr>g := set_axis (g ?t) Z (accumulatedSum ext s Z),
       var := set_axis (var ?t) Z (accumulatedVar ext s Z),
       gyroADC := set_axis (gyroADC ?t) Z 0,
       gyroZero := set_axis (gyroZero ?t) Z (calibratedZero n (accumulatedSum ext s Z))\<rparr>"
    by (subst committed_def, subst accumulated_def) simp
  also have "\<dots> = s\<lparr>g := vec_of (accumulatedSum ext s), var := vec_of (accumulatedVar ext s),
             gyroADC := Vec 0 0 0,
             gyroZero := vec_of (\<lambda>a. calibratedZero n (accumulatedSum ext s a))\<rparr>"
    apply simp
    apply (simp add: committed_def accumulated_def set_axis_all vec_of_def)
    done
  finally show ?thesis .
qed

lemma performGyroCalibration_nonfinal:
  assumes n: "gyroCalculateCalibratingCycles ext s = Some n" and c: "calibratingG s \<noteq> 1"
  shows "performGyroCalibration ext threshold s =
     Some (s\<lparr>g := vec_of (accumulatedSum ext s), var := vec_of (accumulatedVar ext s),
             gyroADC := Vec 0 0 0, gyroZero := Vec 0 0 0,
             calibratingG := calibratingG s - 1\<rparr>)"
proof -
  let ?sx = "accumulated ext s X"
  let ?sy = "accumulated ext ?sx Y"
  let ?sz = "accumulated ext ?sy Z"
  have nx: "gyroCalculateCalibratingCycles ext ?sx = Some n"
    and ny: "gyroCalculateCalibratingCycles ext ?sy = Some n"
    using n by simp_all
  have "performGyroCalibration ext threshold s =
     Some (?sz\<lparr>calibratingG := calibratingG s - 1\<rparr>)"
    using c
    by (simp add: performGyroCalibration_def calibrateAxis_nonfinal [OF n] calibrateAxis_nonfinal [OF nx]
        calibrateAxis_nonfinal [OF ny] isOnFinalGyroCalibrationCycle_def)
  then show ?thesis by (simp add: accumulated3)
qed

lemma performGyroCalibration_final:
  assumes n: "gyroCalculateCalibratingCycles ext s = Some n" and n0: "n \<noteq> 0"
    and c: "calibratingG s = 1"
    and still: "\<And>a. \<not> movementDetected ext threshold (accumulatedVar ext s a)"
  shows "performGyroCalibration ext threshold s =
     Some (s\<lparr>g := vec_of (accumulatedSum ext s), var := vec_of (accumulatedVar ext s),
             gyroADC := Vec 0 0 0,
             gyroZero := vec_of (\<lambda>a. calibratedZero n (accumulatedSum ext s a)),
             beeps := beeps s + 1, calibratingG := 0\<rparr>)"
proof -
  let ?sx = "committed ext n s X"
  let ?sy = "committed ext n ?sx Y"
  let ?sz = "committed ext n ?sy Z"
  have nx: "gyroCalculateCalibratingCycles ext ?sx = Some n"
    and ny: "gyroCalculateCalibratingCycles ext ?sy = Some n"
    using n by simp_all
  have cx: "calibratingG ?sx = 1" and cy: "calibratingG ?sy = 1" using c by simp_all
  have "performGyroCalibration ext threshold s =
     Some (?sz\<lparr>beeps := beeps s + 1, calibratingG := 0\<rparr>)"
    using c n0 still
    by (simp add: performGyroCalibration_def calibrateAxis_final [OF n c] calibrateAxis_final [OF nx cx]
        calibrateAxis_final [OF ny cy] isOnFinalGyroCalibrationCycle_def)
  then show ?thesis by (simp add: committed3)
qed

subsection \<open>Sampling and filtering\<close>

lemma get_axis_vec_of [simp]: "get_axis (vec_of f) a = f a"
  by (cases a) (simp_all add: vec_of_def)

lemma subtractZero3: "subtractZero (subtractZero (subtractZero s X) Y) Z = zeroSubtracted s"
  by (cases "gyroADC s") (simp add: subtractZero_def zeroSubtracted_def vec_of_def)

lemma gyroSample_eq:
  "gyroSample ext gyroADCRaw s =
     do {
       s5 \<leftarrow> (if calibratingG s \<noteq> 0
              then performGyroCalibration ext (gyroMovementCalibrationThreshold s) (sampled ext gyroADCRaw s)
              else Some (sampled ext gyroADCRaw s));
       Some (zeroSubtracted s5)
     }"
proof -
  have "s\<lparr>gyroADC := alignSensors ext
           (set_axis (set_axis (set_axis (gyroADC s) X (scast (get_axis gyroADCRaw X)))
              Y (scast (get_axis gyroADCRaw Y))) Z (scast (get_axis gyroADCRaw Z))) (gyroAlign s)\<rparr>
        = sampled ext gyroADCRaw s"
    by (simp add: sampled_def gyroAligned_def set_axis_all vec_of_def)
  then show ?thesis
    by (simp add: gyroSample_def Let_def isGyroCalibrationComplete_def subtractZero3 sampled_def)
qed

lemma sampled_simps [simp]:
  "targetLooptime (sampled ext r s) = targetLooptime s"
  "calibratingG (sampled ext r s) = calibratingG s"
  "gyroADC (sampled ext r s) = gyroAligned ext r s"
  "gyroZero (sampled ext r s) = gyroZero s"
  "g (sampled ext r s) = g s"
  "var (sampled ext r s) = var s"
  "beeps (sampled ext r s) = beeps s"
  "gyroSoftLpfHz (sampled ext r s) = gyroSoftLpfHz s"
  "gyroCalculateCalibratingCycles ext (sampled ext r s) = gyroCalculateCalibratingCycles ext s"
  by (simp_all add: sampled_def gyroCalculateCalibratingCycles_def)

lemma zeroSubtracted_simps [simp]:
  "targetLooptime (zeroSubtracted s) = targetLooptime s"
  "calibratingG (zeroSubtracted s) = calibratingG s"
  "gyroADC (zeroSubtracted s) = vec_of (\<lambda>a. get_axis (gyroADC s) a - get_axis (gyroZero s) a)"
  "gyroZero (zeroSubtracted s) = gyroZero s"
  "g (zeroSubtracted s) = g s"
  "var (zeroSubtracted s) = var s"
  "beeps (zeroSubtracted s) = beeps s"
  "gyroSoftLpfHz (zeroSubtracted s) = gyroSoftLpfHz s"
  by (simp_all add: zeroSubtracted_def)

lemma bypassAxis3:
  "foldl (bypassAxis ext) s [X, Y, Z] =
     s\<lparr>gyroADCf := vec_of (\<lambda>a. float_of_int32 ext (get_axis (gyroADC s) a))\<rparr>"
  by (simp add: bypassAxis_def set_axis_all vec_of_def)

lemma gyroFilter_bypass:
  "gyroSoftLpfHz s = 0 \<Longrightarrow>
   gyroFilter ext s = s\<lparr>gyroADCf := vec_of (\<lambda>a. float_of_int32 ext (get_axis (gyroADC s) a))\<rparr>"
  by (simp add: gyroFilter_def bypassAxis3 del: foldl.simps)

lemma tapGyro_frame [simp]:
  "targetLooptime (tapGyro ext a s) = targetLooptime s"
  "calibratingG (tapGyro ext a s) = calibratingG s"
  "gyroZero (tapGyro ext a s) = gyroZero s"
  "g (tapGyro ext a s) = g s"
  "var (tapGyro ext a s) = var s"
  "beeps (tapGyro ext a s) = beeps s"
  "gyroSoftLpfHz (tapGyro ext a s) = gyroSoftLpfHz s"
  "gyroAlign (tapGyro ext a s) = gyroAlign s"
  "gyroMovementCalibrationThreshold (tapGyro ext a s) = gyroMovementCalibrationThreshold s"
  "gyroSoftLpfType (tapGyro ext a s) = gyroSoftLpfType s"
  "gyroSoftNotchHz1 (tapGyro ext a s) = gyroSoftNotchHz1 s"
  "gyroSoftNotchHz2 (tapGyro ext a s) = gyroSoftNotchHz2 s"
  "gyroDt (tapGyro ext a s) = gyroDt s"
  "debugMode (tapGyro ext a s) = debugMode s"
  "gyroADC (tapGyro ext a s) = gyroADC s"
  "gyroADCf (tapGyro ext a s) = gyroADCf s"
  "gyroFilterNotch_1 (tapGyro ext a s) = gyroFilterNotch_1 s"
  "gyroFilterNotch_2 (tapGyro ext a s) = gyroFilterNotch_2 s"
  "gyroFilterLPF (tapGyro ext a s) = gyroFilterLPF s"
  "gyroFilterPt1 (tapGyro ext a s) = gyroFilterPt1 s"
  "gyroDenoiseState (tapGyro ext a s) = gyroDenoiseState s"
  by (simp_all add: tapGyro_def)

lemma lowpassStage_frame [simp]:
  "targetLooptime (lowpassStage ext a s) = targetLooptime s"
  "calibratingG (lowpassStage ext a s) = calibratingG s"
  "gyroZero (lowpassStage ext a s) = gyroZero s"
  "g (lowpassStage ext a s) = g s"
  "var (lowpassStage ext a s) = var s"
  "beeps (lowpassStage ext a s) = beeps s"
  "gyroSoftLpfHz (lowpassStage ext a s) = gyroSoftLpfHz s"
  "gyroAlign (lowpassStage ext a s) = gyroAlign s"
  "gyroMovementCalibrationThreshold (lowpassStage ext a s) = gyroMovementCalibrationThreshold s"
  "gyroSoftLpfType (lowpassStage ext a s) = gyroSoftLpfType s"
  "gyroSoftNotchHz1 (lowpassStage ext a s) = gyroSoftNotchHz1 s"
  "gyroSoftNotchHz2 (lowpassStage ext a s) = gyroSoftNotchHz2 s"
  "gyroDt (lowpassStage ext a s) = gyroDt s"
  "debugMode (lowpassStage ext a s) = debugMode s"
  "gyroADC (lowpassStage ext a s) = gyroADC s"
  "gyroFilterNotch_1 (lowpassStage ext a s) = gyroFilterNotch_1 s"
  "gyroFilterNotch_2 (lowpassStage ext a s) = gyroFilterNotch_2 s"
  "debug (lowpassStage ext a s) = debug s"
  by (simp_all add: lowpassStage_def Let_def split_def)

lemma tapNotch_frame [simp]:
  "targetLooptime (tapNotch ext a s) = targetLooptime s"
  "calibratingG (tapNotch ext a s) = calibratingG s"
  "gyroZero (tapNotch ext a s) = gyroZero s"
  "g (tapNotch ext a s) = g s"
  "var (tapNotch ext a s) = var s"
  "beeps (tapNotch ext a s) = beeps s"
  "gyroSoftLpfHz (tapNotch ext a s) = gyroSoftLpfHz s"
  "gyroAlign (tapNotch ext a s) = gyroAlign s"
  "gyroMovementCalibrationThreshold (tapNotch ext a s) = gyroMovementCalibrationThreshold s"
  "gyroSoftLpfType (tapNotch ext a s) = gyroSoftLpfType s"
  "gyroSoftNotchHz1 (tapNotch ext a s) = gyroSoftNotchHz1 s"
  "gyroSoftNotchHz2 (tapNotch ext a s) = gyroSoftNotchHz2 s"
  "gyroDt (tapNotch ext a s) = gyroDt s"
  "debugMode (tapNotch ext a s) = debugMode s"
  "gyroADC (tapNotch ext a s) = gyroADC s"
  "gyroADCf (tapNotch ext a s) = gyroADCf s"
  "gyroFilterNotch_1 (tapNotch ext a s) = gyroFilterNotch_1 s"
  "gyroFilterNotch_2 (tapNotch ext a s) = gyroFilterNotch_2 s"
  "gyroFilterLPF (tapNotch ext a s) = gyroFilterLPF s"
  "gyroFilterPt1 (tapNotch ext a s) = gyroFilterPt1 s"
  "gyroDenoiseState (tapNotch ext a s) = gyroDenoiseState s"
  by (simp_all add: tapNotch_def)

lemma notchStage1_frame [simp]:
  "targetLooptime (notchStage1 ext a s) = targetLooptime s"
  "calibratingG (notchStage1 ext a s) = calibratingG s"
  "gyroZero (notchStage1 ext a s) = gyroZero s"
  "g (notchStage1 ext a s) = g s"
  "var (notchStage1 ext a s) = var s"
  "beeps (notchStage1 ext a s) = beeps s"
  "gyroSoftLpfHz (notchStage1 ext a s) = gyroSoftLpfHz s"
  "gyroAlign (notchStage1 ext a s) = gyroAlign s"
  "gyroMovementCalibrationThreshold (notchStage1 ext a s) = gyroMovementCalibrationThreshold s"
  "gyroSoftLpfType (notchStage1 ext a s) = gyroSoftLpfType s"
  "gyroSoftNotchHz1 (notchStage1 ext a s) = gyroSoftNotchHz1 s"
  "gyroSoftNotchHz2 (notchStage1 ext a s) = gyroSoftNotchHz2 s"
  "gyroDt (notchStage1 ext a s) = gyroDt s"
  "debugMode (notchStage1 ext a s) = debugMode s"
  "gyroADC (notchStage1 ext a s) = gyroADC s"
  "gyroFilterNotch_2 (notchStage1 ext a s) = gyroFilterNotch_2 s"
  "gyroFilterLPF (notchStage1 ext a s) = gyroFilterLPF s"
  "gyroFilterPt1 (notchStage1 ext a s) = gyroFilterPt1 s"
  "gyroDenoiseState (notchStage1 ext a s) = gyroDenoiseState s"
  "debug (notchStage1 ext a s) = debug s"
  by (simp_all add: notchStage1_def Let_def split_def)

lemma notchStage2_frame [simp]:
  "targetLooptime (notchStage2 ext a s) = targetLooptime s"
  "calibratingG (notchStage2 ext a s) = calibratingG s"
  "gyroZero (notchStage2 ext a s) = gyroZero s"
  "g (notchStage2 ext a s) = g s"
  "var (notchStage2 ext a s) = var s"
  "beeps (notchStage2 ext a s) = beeps s"
  "gyroSoftLpfHz (notchStage2 ext a s) = gyroSoftLpfHz s"
  "gyroAlign (notchStage2 ext a s) = gyroAlign s"
  "gyroMovementCalibrationThreshold (notchStage2 ext a s) = gyroMovementCalibrationThreshold s"
  "gyroSoftLpfType (notchStage2 ext a s) = gyroSoftLpfType s"
  "gyroSoftNotchHz1 (notchStage2 ext a s) = gyroSoftNotchHz1 s"
  "gyroSoftNotchHz2 (notchStage2 ext a s) = gyroSoftNotchHz2 s"
  "gyroDt (notchStage2 ext a s) = gyroDt s"
  "debugMode (notchStage2 ext a s) = debugMode s"
  "gyroADC (notchStage2 ext a s) = gyroADC s"
  "gyroFilterNotch_1 (notchStage2 ext a s) = gyroFilterNotch_1 s"
  "gyroFilterLPF (notchStage2 ext a s) = gyroFilterLPF s"
  "gyroFilterPt1 (notchStage2 ext a s) = gyroFilterPt1 s"
  "gyroDenoiseState (notchStage2 ext a s) = gyroDenoiseState s"
  "debug (notchStage2 ext a s) = debug s"
  by (simp_all add: notchStage2_def Let_def split_def)

lemma roundOutput_frame [simp]:
  "targetLooptime (roundOutput ext a s) = targetLooptime s"
  "calibratingG (roundOutput ext a s) = calibratingG s"
  "gyroZero (roundOutput ext a s) = gyroZero s"
  "g (roundOutput ext a s) = g s"
  "var (roundOutput ext a s) = var s"
  "beeps (roundOutput ext a s) = beeps s"
  "gyroSoftLpfHz (roundOutput ext a s) = gyroSoftLpfHz s"
  "gyroAlign (roundOutput ext a s) = gyroAlign s"
  "gyroMovementCalibrationThreshold (roundOutput ext a s) = gyroMovementCalibrationThreshold s"
  "gyroSoftLpfType (roundOutput ext a s) = gyroSoftLpfType s"
  "gyroSoftNotchHz1 (roundOutput ext a s) = gyroSoftNotchHz1 s"
  "gyroSoftNotchHz2 (roundOutput ext a s) = gyroSoftNotchHz2 s"
  "gyroDt (roundOutput ext a s) = gyroDt s"
  "debugMode (roundOutput ext a s) = debugMode s"
  "gyroADCf (roundOutput ext a s) = gyroADCf s"
  "gyroFilterNotch_1 (roundOutput ext a s) = gyroFilterNotch_1 s"
  "gyroFilterNotch_2 (roundOutput ext a s) = gyroFilterNotch_2 s"
  "gyroFilterLPF (roundOutput ext a s) = gyroFilterLPF s"
  "gyroFilterPt1 (roundOutput ext a s) = gyroFilterPt1 s"
  "gyroDenoiseState (roundOutput ext a s) = gyroDenoiseState s"
  "debug (roundOutput ext a s) = debug s"
  by (simp_all add: roundOutput_def)

lemma filterAxis_frame [simp]:
  "targetLooptime (filterAxis ext s a) = targetLooptime s"
  "calibratingG (filterAxis ext s a) = calibratingG s"
  "gyroZero (filterAxis ext s a) = gyroZero s"
  "g (filterAxis ext s a) = g s"
  "var (filterAxis ext s a) = var s"
  "beeps (filterAxis ext s a) = beeps s"
  "gyroSoftLpfHz (filterAxis ext s a) = gyroSoftLpfHz s"
  "gyroAlign (filterAxis ext s a) = gyroAlign s"
  "gyroMovementCalibrationThreshold (filterAxis ext s a) = gyroMovementCalibrationThreshold s"
  "gyroSoftLpfType (filterAxis ext s a) = gyroSoftLpfType s"
  "gyroSoftNotchHz1 (filterAxis ext s a) = gyroSoftNotchHz1 s"
  "gyroSoftNotchHz2 (filterAxis ext s a) = gyroSoftNotchHz2 s"
  "gyroDt (filterAxis ext s a) = gyroDt s"
  "debugMode (filterAxis ext s a) = debugMode s"
  by (simp_all add: filterAxis_def)

lemma gyroADCf_other_axis:
  assumes "a \<noteq> b"
  shows "get_axis (gyroADCf (lowpassStage ext a s)) b = get_axis (gyroADCf s) b"
    "get_axis (gyroADCf (notchStage1 ext a s)) b = get_axis (gyroADCf s) b"
    "get_axis (gyroADCf (notchStage2 ext a s)) b = get_axis (gyroADCf s) b"
  using assms by (simp_all add: lowpassStage_def notchStage1_def notchStage2_def Let_def split_def)

lemma filterAxis_rounded:
  "get_axis (gyroADC (filterAxis ext s a)) b =
     (if a = b then lrintf ext (get_axis (gyroADCf (filterAxis ext s a)) a) else get_axis (gyroADC s) b)"
  by (simp add: filterAxis_def roundOutput_def)

lemma filterAxis_other_axis:
  "a \<noteq> b \<Longrightarrow> get_axis (gyroADCf (filterAxis ext s a)) b = get_axis (gyroADCf s) b"
  by (simp add: filterAxis_def gyroADCf_other_axis)

lemma gyroFilter_frame [simp]:
  "targetLooptime (gyroFilter ext s) = targetLooptime s"
  "calibratingG (gyroFilter ext s) = calibratingG s"
  "gyroZero (gyroFilter ext s) = gyroZero s"
  "g (gyroFilter ext s) = g s"
  "var (gyroFilter ext s) = var s"
  "beeps (gyroFilter ext s) = beeps s"
  "gyroSoftLpfHz (gyroFilter ext s) = gyroSoftLpfHz s"
  "gyroAlign (gyroFilter ext s) = gyroAlign s"
  "gyroMovementCalibrationThreshold (gyroFilter ext s) = gyroMovementCalibrationThreshold s"
  "gyroSoftLpfType (gyroFilter ext s) = gyroSoftLpfType s"
  "gyroSoftNotchHz1 (gyroFilter ext s) = gyroSoftNotchHz1 s"
  "gyroSoftNotchHz2 (gyroFilter ext s) = gyroSoftNotchHz2 s"
  "gyroDt (gyroFilter ext s) = gyroDt s"
  "debugMode (gyroFilter ext s) = debugMode s"
  by (simp_all add: gyroFilter_def bypassAxis_def)

lemma gyroFilter_rounded:
  assumes "gyroSoftLpfHz s \<noteq> 0"
  shows "get_axis (gyroADC (gyroFilter ext s)) a = lrintf ext (get_axis (gyroADCf (gyroFilter ext s)) a)"
  using assms by (cases a) (simp_all add: gyroFilter_def filterAxis_rounded filterAxis_other_axis)

subsection \<open>What the calibration step leaves alone\<close>

lemma calibrateAxis_Some_cycles:
  assumes "calibrateAxis ext threshold a s = Some r"
  obtains n where "gyroCalculateCalibratingCycles ext s = Some n"
  using assms by (cases "gyroCalculateCalibratingCycles ext s")
    (simp_all add: calibrateAxis_def isOnFirstGyroCalibrationCycle_def)

lemma calibrationFrame_refl: "calibrationFrame s s"
  by (simp add: calibrationFrame_def)

lemma calibrationFrame_trans:
  "calibrationFrame s t \<Longrightarrow> calibrationFrame t u \<Longrightarrow> calibrationFrame s u"
  by (simp add: calibrationFrame_def)

lemma calibrationFrame_accumulated: "calibrationFrame s (accumulated ext s a)"
  by (simp add: calibrationFrame_def accumulated_def)

lemma calibrationFrame_update:
  "calibrationFrame s (t\<lparr>calibratingG := c\<rparr>) = calibrationFrame s t"
  "calibrationFrame s (t\<lparr>gyroZero := z\<rparr>) = calibrationFrame s t"
  "calibrationFrame s (t\<lparr>beeps := b\<rparr>) = calibrationFrame s t"
  "calibrationFrame s (t\<lparr>gyroADC := d\<rparr>) = calibrationFrame s t"
  by (simp_all add: calibrationFrame_def)

lemma calibrateAxis_frame:
  assumes "calibrateAxis ext threshold a s = Some r"
  shows "case r of Next s' \<Rightarrow> calibrationFrame s s' | Returned s' \<Rightarrow> calibrationFrame s s'"
proof -
  from assms obtain n where n: "gyroCalculateCalibratingCycles ext s = Some n"
    by (rule calibrateAxis_Some_cycles)
  show ?thesis
    using assms unfolding calibrateAxis_eq [OF n]
    by (auto simp: calibrationFrame_update calibrationFrame_accumulated split: if_splits)
qed

lemma calibrateAxes_frame:
  "calibrateAxes ext threshold as s = Some s' \<Longrightarrow> calibrationFrame s s'"
proof (induction as arbitrary: s)
  case Nil
  then show ?case
    by (auto simp: Let_def calibrationFrame_update calibrationFrame_refl)
next
  case (Cons a as)
  from Cons.prems obtain r where r: "calibrateAxis ext threshold a s = Some r"
    by (cases "calibrateAxis ext threshold a s") simp_all
  show ?case
  proof (cases r)
    case (Next t)
    with calibrateAxis_frame [OF r] have "calibrationFrame s t" by simp
    moreover have "calibrationFrame t s'" using Cons.prems r Next by (intro Cons.IH) simp
    ultimately show ?thesis by (rule calibrationFrame_trans)
  next
    case (Returned t)
    with calibrateAxis_frame [OF r] Cons.prems r show ?thesis by simp
  qed
qed

lemma gyroSample_frame:
  assumes "gyroSample ext gyroADCRaw s = Some s'"
  shows "calibrationFrame s s'"
proof -
  have a: "calibrationFrame s (sampled ext gyroADCRaw s)"
    by (simp add: sampled_def calibrationFrame_update calibrationFrame_refl)
  have z: "calibrationFrame t (zeroSubtracted t)" for t :: "('a, 'b, 'c, 'd, 'e) gyro_state"
    by (simp add: zeroSubtracted_def calibrationFrame_update calibrationFrame_refl)
  from assms obtain s5 where s5: "s' = zeroSubtracted s5"
    and c: "calibrationFrame (sampled ext gyroADCRaw s) s5"
  proof (cases "calibratingG s = 0")
    case True
    with assms have "s' = zeroSubtracted (sampled ext gyroADCRaw s)"
      by (simp add: gyroSample_eq)
    then show ?thesis by (rule that) (rule calibrationFrame_refl)
  next
    case False
    with assms obtain s5 where
      "performGyroCalibration ext (gyroMovementCalibrationThreshold s) (sampled ext gyroADCRaw s) = Some s5"
      "s' = zeroSubtracted s5"
      by (auto simp: gyroSample_eq split: bind_splits)
    with that show ?thesis
      unfolding performGyroCalibration_def by (blast dest: calibrateAxes_frame)
  qed
  show ?thesis unfolding s5
    by (rule calibrationFrame_trans [OF a calibrationFrame_trans [OF c z]])
qed

subsection \<open>The countdown\<close>

lemma calibrateAxis_countdown:
  assumes "calibrateAxis ext threshold a s = Some r"
  shows "case r of
           Next s' \<Rightarrow> calibratingG s' = calibratingG s \<and> targetLooptime s' = targetLooptime s
         | Returned s' \<Rightarrow> calibratingG s = 1 \<and>
                          gyroCalculateCalibratingCycles ext s = Some (calibratingG s')"
proof -
  from assms obtain n where n: "gyroCalculateCalibratingCycles ext s = Some n"
    by (rule calibrateAxis_Some_cycles)
  show ?thesis
    using assms n unfolding calibrateAxis_eq [OF n]
    by (auto split: if_splits)
qed

lemma calibrateAxes_countdown:
  "calibrateAxes ext threshold as s = Some s' \<Longrightarrow>
     calibratingG s' = calibratingG s - 1 \<or>
     calibratingG s = 1 \<and> gyroCalculateCalibratingCycles ext s = Some (calibratingG s')"
proof (induction as arbitrary: s)
  case Nil
  then show ?case by (auto simp: Let_def split: if_splits)
next
  case (Cons a as)
  from Cons.prems obtain r where r: "calibrateAxis ext threshold a s = Some r"
    by (cases "calibrateAxis ext threshold a s") simp_all
  show ?case
  proof (cases r)
    case (Next t)
    with calibrateAxis_countdown [OF r]
    have t: "calibratingG t = calibratingG s" "targetLooptime t = targetLooptime s" by simp_all
    have "calibrateAxes ext threshold as t = Some s'" using Cons.prems r Next by simp
    from Cons.IH [OF this] show ?thesis
      using t by (auto simp: gyroCalculateCalibratingCycles_def split: if_splits)
  next
    case (Returned t)
    with calibrateAxis_countdown [OF r] Cons.prems r show ?thesis by simp
  qed
qed

lemma gyroSample_countdown:
  assumes "gyroSample ext gyroADCRaw s = Some s'"
  shows "calibratingG s = 0 \<and> calibratingG s' = 0 \<or>
         calibratingG s \<noteq> 0 \<and> calibratingG s' = calibratingG s - 1 \<or>
         calibratingG s = 1 \<and> gyroCalculateCalibratingCycles ext s = Some (calibratingG s')"
proof (cases "calibratingG s = 0")
  case True
  with assms show ?thesis by (auto simp: gyroSample_eq)
next
  case False
  with assms obtain s5 where
    p: "calibrateAxes ext (gyroMovementCalibrationThreshold s) [X, Y, Z] (sampled ext gyroADCRaw s) = Some s5"
    and s': "s' = zeroSubtracted s5"
    by (auto simp: gyroSample_eq performGyroCalibration_def split: bind_splits simp del: calibrateAxes.simps)
  from calibrateAxes_countdown [OF p] False show ?thesis
    by (simp add: s')
qed


subsection \<open>The zero offset\<close>

lemma gyroUpdate_Some:
  "gyroUpdate ext (Some gyroADCRaw) s =
     map_option (gyroFilter ext) (gyroSample ext gyroADCRaw s)"
  by (cases "gyroSample ext gyroADCRaw s") (simp_all add: gyroUpdate_def)

lemma gyroSample_complete:
  "calibratingG s = 0 \<Longrightarrow>
   gyroSample ext gyroADCRaw s = Some (zeroSubtracted (sampled ext gyroADCRaw s))"
  by (simp add: gyroSample_eq)

lemma gyroSample_Some_cycles:
  assumes "gyroSample ext gyroADCRaw s = Some s'" "calibratingG s \<noteq> 0"
  obtains n where "gyroCalculateCalibratingCycles ext s = Some n"
proof -
  from assms obtain r where
    "calibrateAxis ext (gyroMovementCalibrationThreshold s) X (sampled ext gyroADCRaw s) = Some r"
    by (auto simp: gyroSample_eq performGyroCalibration_def split: bind_splits option.splits)
  then obtain n where "gyroCalculateCalibratingCycles ext (sampled ext gyroADCRaw s) = Some n"
    by (rule calibrateAxis_Some_cycles)
  then show ?thesis using that by simp
qed

lemma gyroSample_nonfinal:
  assumes "gyroCalculateCalibratingCycles ext s = Some n" "calibratingG s \<noteq> 0" "calibratingG s \<noteq> 1"
  shows "gyroSample ext gyroADCRaw s =
     Some (s\<lparr>g := vec_of (accumulatedSum ext (sampled ext gyroADCRaw s)),
             var := vec_of (accumulatedVar ext (sampled ext gyroADCRaw s)),
             gyroADC := Vec 0 0 0, gyroZero := Vec 0 0 0,
             calibratingG := calibratingG s - 1\<rparr>)"
proof -
  have "performGyroCalibration ext (gyroMovementCalibrationThreshold s) (sampled ext gyroADCRaw s) =
     Some ((sampled ext gyroADCRaw s)\<lparr>g := vec_of (accumulatedSum ext (sampled ext gyroADCRaw s)),
             var := vec_of (accumulatedVar ext (sampled ext gyroADCRaw s)),
             gyroADC := Vec 0 0 0, gyroZero := Vec 0 0 0,
             calibratingG := calibratingG (sampled ext gyroADCRaw s) - 1\<rparr>)"
    using assms by (intro performGyroCalibration_nonfinal [where n = n]) simp_all
  then show ?thesis
    using assms(2) by (simp add: gyroSample_eq) (simp add: zeroSubtracted_def sampled_def vec_of_def)
qed

lemma gyroSample_final:
  assumes "gyroCalculateCalibratingCycles ext s = Some n" "n \<noteq> 0" "calibratingG s = 1"
    and "\<And>a. \<not> movementDetected ext (gyroMovementCalibrationThreshold s)
                  (accumulatedVar ext (sampled ext gyroADCRaw s) a)"
  shows "gyroSample ext gyroADCRaw s =
     Some (s\<lparr>g := vec_of (accumulatedSum ext (sampled ext gyroADCRaw s)),
             var := vec_of (accumulatedVar ext (sampled ext gyroADCRaw s)),
             gyroADC := vec_of (\<lambda>a. 0 - calibratedZero n (accumulatedSum ext (sampled ext gyroADCRaw s) a)),
             gyroZero := vec_of (\<lambda>a. calibratedZero n (accumulatedSum ext (sampled ext gyroADCRaw s) a)),
             beeps := beeps s + 1, calibratingG := 0\<rparr>)"
proof -
  have "performGyroCalibration ext (gyroMovementCalibrationThreshold s) (sampled ext gyroADCRaw s) =
     Some ((sampled ext gyroADCRaw s)\<lparr>g := vec_of (accumulatedSum ext (sampled ext gyroADCRaw s)),
             var := vec_of (accumulatedVar ext (sampled ext gyroADCRaw s)),
             gyroADC := Vec 0 0 0,
             gyroZero := vec_of (\<lambda>a. calibratedZero n (accumulatedSum ext (sampled ext gyroADCRaw s) a)),
             beeps := beeps (sampled ext gyroADCRaw s) + 1, calibratingG := 0\<rparr>)"
    using assms by (intro performGyroCalibration_final) simp_all
  then show ?thesis
    using assms(3) by (simp add: gyroSample_eq) (simp add: zeroSubtracted_def sampled_def vec_of_def)
qed

lemma gyroSample_final_None:
  assumes "gyroCalculateCalibratingCycles ext s = Some 0" "calibratingG s = 1"
    and "\<not> movementDetected ext (gyroMovementCalibrationThreshold s)
                  (accumulatedVar ext (sampled ext gyroADCRaw s) X)"
  shows "gyroSample ext gyroADCRaw s = None"
  using assms
  by (simp add: gyroSample_eq performGyroCalibration_def calibrateAxis_final [where n = 0])

text \<open>
  C3, as amended.  \<^verbatim>\<open>gyroZero\<close> is written on every tick of a calibration, not only
  on the final cycle.  On a tick with the calibration complete it is left as it is; on a
  calibration tick before the final cycle all three axes are reset to 0; on the final
  cycle, when no axis detects movement, the countdown reaches 0 and all three axes hold
  the offset computed from their sums.  (What the restart path leaves in
  \<^verbatim>\<open>gyroZero\<close> is not part of this statement.)
\<close>

theorem zero_offset_written:
  assumes "gyroUpdate ext (Some gyroADCRaw) s = Some s'"
  shows "(calibratingG s = 0 \<longrightarrow> gyroZero s' = gyroZero s) \<and>
         (calibratingG s \<noteq> 0 \<and> calibratingG s \<noteq> 1 \<longrightarrow> gyroZero s' = Vec 0 0 0) \<and>
         (calibratingG s = 1 \<and>
          (\<forall>a. \<not> movementDetected ext (gyroMovementCalibrationThreshold s)
                   (accumulatedVar ext (sampled ext gyroADCRaw s) a)) \<longrightarrow>
            calibratingG s' = 0 \<and>
            (\<exists>n. gyroCalculateCalibratingCycles ext s = Some n \<and>
                 gyroZero s' =
                   vec_of (\<lambda>a. calibratedZero n (accumulatedSum ext (sampled ext gyroADCRaw s) a))))"
proof -
  from assms obtain s1 where s1: "gyroSample ext gyroADCRaw s = Some s1" and s': "s' = gyroFilter ext s1"
    by (auto simp: gyroUpdate_Some)
  show ?thesis
  proof (cases "calibratingG s = 0")
    case True
    with s1 show ?thesis by (auto simp: s' gyroSample_complete)
  next
    case False
    from s1 False obtain n where n: "gyroCalculateCalibratingCycles ext s = Some n"
      by (rule gyroSample_Some_cycles)
    show ?thesis
    proof (cases "calibratingG s = 1")
      case False
      with s1 \<open>calibratingG s \<noteq> 0\<close> show ?thesis
        by (auto simp: s' gyroSample_nonfinal [OF n])
    next
      case True
      have "calibratingG s' = 0 \<and>
            (\<exists>n. gyroCalculateCalibratingCycles ext s = Some n \<and>
                 gyroZero s' =
                   vec_of (\<lambda>a. calibratedZero n (accumulatedSum ext (sampled ext gyroADCRaw s) a)))"
        if still: "\<And>a. \<not> movementDetected ext (gyroMovementCalibrationThreshold s)
                   (accumulatedVar ext (sampled ext gyroADCRaw s) a)"
      proof -
        have "n \<noteq> 0"
        proof
          assume "n = 0"
          with n True still [of X] have "gyroSample ext gyroADCRaw s = None"
            by (intro gyroSample_final_None) simp_all
          with s1 show False by simp
        qed
        from gyroSample_final [OF n this True still] s1 show ?thesis
          using n by (auto simp: s')
      qed
      with True show ?thesis by simp
    qed
  qed
qed

subsection \<open>Published values\<close>

text \<open>
  On every calibration tick before the final cycle the zeroing does what its comment says:
  the sample that leaves the calibration step and the zero offset are 0 on all three axes,
  so the filter stage is fed zeros; with the low-pass filter disabled the published integer
  output is 0 and the published floating point output is the conversion of 0.
\<close>

lemma calibration_tick_publishes_zero:
  assumes "gyroUpdate ext (Some gyroADCRaw) s = Some s'"
    and "calibratingG s \<noteq> 0" and "calibratingG s \<noteq> 1"
  shows "\<exists>s1. gyroSample ext gyroADCRaw s = Some s1 \<and> s' = gyroFilter ext s1 \<and>
              gyroADC s1 = Vec 0 0 0 \<and> gyroZero s1 = Vec 0 0 0 \<and> gyroZero s' = Vec 0 0 0 \<and>
              (gyroSoftLpfHz s = 0 \<longrightarrow>
                 gyroADC s' = Vec 0 0 0 \<and>
                 gyroADCf s' = Vec (float_of_int32 ext 0) (float_of_int32 ext 0) (float_of_int32 ext 0))"
proof -
  from assms(1) obtain s1 where s1: "gyroSample ext gyroADCRaw s = Some s1" and s': "s' = gyroFilter ext s1"
    by (auto simp: gyroUpdate_Some)
  from s1 assms(2) obtain n where n: "gyroCalculateCalibratingCycles ext s = Some n"
    by (rule gyroSample_Some_cycles)
  from s1 have eq: "s1 = s\<lparr>g := vec_of (accumulatedSum ext (sampled ext gyroADCRaw s)),
             var := vec_of (accumulatedVar ext (sampled ext gyroADCRaw s)),
             gyroADC := Vec 0 0 0, gyroZero := Vec 0 0 0,
             calibratingG := calibratingG s - 1\<rparr>"
    by (simp add: gyroSample_nonfinal [OF n assms(2,3)])
  have 1: "gyroADC s1 = Vec 0 0 0" and 2: "gyroZero s1 = Vec 0 0 0" and 3: "gyroSoftLpfHz s1 = gyroSoftLpfHz s"
    by (simp_all add: eq)
  have "gyroADC s' = Vec 0 0 0 \<and>
        gyroADCf s' = Vec (float_of_int32 ext 0) (float_of_int32 ext 0) (float_of_int32 ext 0)"
    if "gyroSoftLpfHz s = 0"
    using that 1 3 by (simp add: s' gyroFilter_bypass vec_of_def)
  with s1 s' 1 2 show ?thesis by simp
qed

text \<open>
  C6.  On every tick with the low-pass filter disabled (\<^verbatim>\<open>gyroSoftLpfHz\<close> equal to
  0) the published floating point output is the published integer sample converted to
  \<^verbatim>\<open>float\<close>; with the calibration complete that sample is the aligned sample minus
  the zero offset.  No filter is applied, whatever the notch frequencies are: the states
  of both notch filters and of the low-pass filters are what they were before the tick.
\<close>

theorem lowpass_disabled_bypass:
  assumes "gyroSoftLpfHz s = 0" and "gyroUpdate ext (Some gyroADCRaw) s = Some s'"
  shows "gyroADCf s' = vec_of (\<lambda>a. float_of_int32 ext (get_axis (gyroADC s') a)) \<and>
         (calibratingG s = 0 \<longrightarrow>
            gyroADC s' = vec_of (\<lambda>a. get_axis (gyroAligned ext gyroADCRaw s) a - get_axis (gyroZero s) a)) \<and>
         gyroFilterNotch_1 s' = gyroFilterNotch_1 s \<and> gyroFilterNotch_2 s' = gyroFilterNotch_2 s \<and>
         gyroFilterLPF s' = gyroFilterLPF s \<and> gyroFilterPt1 s' = gyroFilterPt1 s \<and>
         gyroDenoiseState s' = gyroDenoiseState s"
proof -
  from assms(2) obtain s1 where s1: "gyroSample ext gyroADCRaw s = Some s1" and s': "s' = gyroFilter ext s1"
    by (auto simp: gyroUpdate_Some)
  from gyroSample_frame [OF s1] have fr: "calibrationFrame s s1" .
  then have hz: "gyroSoftLpfHz s1 = 0" using assms(1) by (simp add: calibrationFrame_def)
  have s'': "s' = s1\<lparr>gyroADCf := vec_of (\<lambda>a. float_of_int32 ext (get_axis (gyroADC s1) a))\<rparr>"
    unfolding s' using hz by (rule gyroFilter_bypass)
  have "gyroADC s' = vec_of (\<lambda>a. get_axis (gyroAligned ext gyroADCRaw s) a - get_axis (gyroZero s) a)"
    if "calibratingG s = 0"
    using s1 that by (auto simp: gyroSample_complete s'')
  then show ?thesis
    using fr by (simp add: s'' calibrationFrame_def)
qed

text \<open>
  C7, as amended.  After every tick that publishes outputs with the low-pass filter
  enabled, the published integer output is \<^verbatim>\<open>lrintf\<close> of the published floating
  point output, on every axis; with the low-pass filter disabled the published floating
  point output is the conversion of the published integer output.
\<close>

theorem published_integer_is_lrintf:
  assumes "gyroUpdate ext (Some gyroADCRaw) s = Some s'"
  shows "(gyroSoftLpfHz s \<noteq> 0 \<longrightarrow>
            (\<forall>a. get_axis (gyroADC s') a = lrintf ext (get_axis (gyroADCf s') a))) \<and>
         (gyroSoftLpfHz s = 0 \<longrightarrow>
            (\<forall>a. get_axis (gyroADCf s') a = float_of_int32 ext (get_axis (gyroADC s') a)))"
proof -
  from assms obtain s1 where s1: "gyroSample ext gyroADCRaw s = Some s1" and s': "s' = gyroFilter ext s1"
    by (auto simp: gyroUpdate_Some)
  from gyroSample_frame [OF s1] have hz: "gyroSoftLpfHz s1 = gyroSoftLpfHz s"
    by (simp add: calibrationFrame_def)
  show ?thesis
    using hz by (auto simp: s' gyroFilter_rounded gyroFilter_bypass)
qed

subsection \<open>A calibration window at rest\<close>

lemma gyroUpdates_append:
  "gyroUpdates ext (rds @ rds') s =
     (case gyroUpdates ext rds s of None \<Rightarrow> None | Some s' \<Rightarrow> gyroUpdates ext rds' s')"
  by (induction rds arbitrary: s) (auto split: option.splits)

lemma gyroUpdates_snoc:
  "gyroUpdates ext rds s = Some t \<Longrightarrow> gyroUpdates ext (rds @ [rd]) s = gyroUpdate ext rd t"
  by (simp add: gyroUpdates_append split: option.splits)

lemma countdown_sub:
  fixes c :: uint16
  assumes "j < unat c"
  shows "unat (c - of_nat j) = unat c - j"
proof -
  have "unat c < 2 ^ 16" using unsigned_less [of c] by simp
  with assms have j: "unat (of_nat j :: uint16) = j" by (simp add: unat_of_nat)
  then have "of_nat j \<le> c" using assms by (simp add: word_le_nat_alt)
  then show ?thesis by (simp add: unat_sub j)
qed

lemma vec_of_eq_iff: "vec_of f = vec_of h \<longleftrightarrow> (\<forall>a. f a = h a)"
proof
  assume "vec_of f = vec_of h"
  then have "f X = h X" "f Y = h Y" "f Z = h Z" by (simp_all add: vec_of_def)
  then show "\<forall>a. f a = h a" by (metis axis.exhaust)
qed (simp add: vec_of_def)

lemma get_axis_const [simp]: "get_axis (Vec x x x) a = x"
  by (cases a) simp_all

lemma midCalibration_simps [simp]:
  "targetLooptime (midCalibration ext k al s) = targetLooptime s"
  "gyroAlign (midCalibration ext k al s) = gyroAlign s"
  "gyroSoftLpfHz (midCalibration ext k al s) = gyroSoftLpfHz s"
  "gyroMovementCalibrationThreshold (midCalibration ext k al s) = gyroMovementCalibrationThreshold s"
  "calibratingG (midCalibration ext k al s) = calibratingG s - of_nat k"
  "g (midCalibration ext k al s) = vec_of (\<lambda>a. of_nat k * get_axis al a)"
  "var (midCalibration ext k al s) = vec_of (\<lambda>a. pushes ext k (float_of_int32 ext (get_axis al a))
                              (devClear ext (get_axis (var s) a)))"
  "gyroZero (midCalibration ext k al s) = Vec 0 0 0"
  "gyroADC (midCalibration ext k al s) = Vec 0 0 0"
  "beeps (midCalibration ext k al s) = beeps s"
  by (simp_all add: midCalibration_def)

lemma cycles_midCalibration [simp]:
  "gyroCalculateCalibratingCycles ext (midCalibration ext k al s) = gyroCalculateCalibratingCycles ext s"
  by (simp add: gyroCalculateCalibratingCycles_def)

lemma gyroUpdate_nonfinal:
  assumes n: "gyroCalculateCalibratingCycles ext s = Some n"
    and c: "calibratingG s \<noteq> 0" "calibratingG s \<noteq> 1" and lpf: "gyroSoftLpfHz s = 0"
  shows "gyroUpdate ext (Some gyroADCRaw) s =
     Some (s\<lparr>g := vec_of (accumulatedSum ext (sampled ext gyroADCRaw s)),
             var := vec_of (accumulatedVar ext (sampled ext gyroADCRaw s)),
             gyroADC := Vec 0 0 0, gyroZero := Vec 0 0 0,
             calibratingG := calibratingG s - 1,
             gyroADCf := vec_of (\<lambda>a. float_of_int32 ext 0)\<rparr>)"
  using lpf by (simp add: gyroUpdate_Some gyroSample_nonfinal [OF n c] gyroFilter_bypass)

lemma steady_calibration:
  assumes first: "gyroCalculateCalibratingCycles ext s = Some (calibratingG s)"
    and lpf: "gyroSoftLpfHz s = 0"
    and al: "gyroAligned ext gyroADCRaw s = al"
    and k: "0 < k" "k < unat (calibratingG s)"
  shows "gyroUpdates ext (replicate k (Some gyroADCRaw)) s = Some (midCalibration ext k al s)"
  using k
proof (induction k)
  case 0
  then show ?case by simp
next
  case (Suc j)
  have c0: "calibratingG s \<noteq> 0" and c1: "calibratingG s \<noteq> 1"
    using Suc.prems by (auto simp: unat_eq_0 [symmetric] simp del: unat_eq_0)
  show ?case
  proof (cases "j = 0")
    case True
    have fc: "firstCycle ext (sampled ext gyroADCRaw s)"
      using first by (simp add: firstCycle_def)
    have "gyroUpdate ext (Some gyroADCRaw) s = Some (midCalibration ext 1 al s)"
      unfolding gyroUpdate_nonfinal [OF first c0 c1 lpf]
      using fc al
      by (simp add: midCalibration_def accumulatedSum_def accumulatedVar_def pushes_def vec_of_def)
    with True show ?thesis by simp
  next
    case False
    let ?m = "midCalibration ext j al s"
    from False Suc have run: "gyroUpdates ext (replicate j (Some gyroADCRaw)) s = Some ?m"
      by simp
    have u: "unat (calibratingG ?m) = unat (calibratingG s) - j"
      using Suc.prems by (simp add: countdown_sub)
    have m0: "calibratingG ?m \<noteq> 0" and m1: "calibratingG ?m \<noteq> 1"
      and mn: "calibratingG ?m \<noteq> calibratingG s"
      using u Suc.prems False by (auto simp: word_unat_eq_iff simp del: midCalibration_simps)
    have n: "gyroCalculateCalibratingCycles ext ?m = Some (calibratingG s)"
      using first by simp
    have nf: "\<not> firstCycle ext (sampled ext gyroADCRaw ?m)"
      using n mn by (simp add: firstCycle_def)
    have al': "gyroAligned ext gyroADCRaw ?m = al"
      using al by (simp add: gyroAligned_def)
    have "gyroUpdate ext (Some gyroADCRaw) ?m = Some (midCalibration ext (Suc j) al s)"
      unfolding gyroUpdate_nonfinal [OF n m0 m1, simplified, OF lpf]
      using nf al'
      by (simp add: midCalibration_def accumulatedSum_def accumulatedVar_def pushes_def
          vec_of_def algebra_simps)
    then show ?thesis
      using gyroUpdates_snoc [OF run, of "Some gyroADCRaw"]
      by (simp add: replicate_append_same)
  qed
qed

subsection \<open>The instance\<close>

lemma ideal_simps [simp]:
  "CALIBRATING_GYRO_CYCLES ideal = 1000"
  "alignSensors ideal = (\<lambda>dest rotation. dest)"
  "devClear ideal = devClear_spec" "devPush ideal = devPush_spec"
  "devStandardDeviation ideal = devStandardDeviation_spec"
  "float_of_int32 ideal = (\<lambda>i. real_of_int (sint i))"
  "float_gt ideal = (\<lambda>x y. y < x)"
  "lrintf ideal = lrintf_libm"
  "firFilterDenoiseUpdate ideal = firFilterDenoiseUpdate_spec"
  "FILTER_BIQUAD ideal = 1" "FILTER_PT1 ideal = 0" "DEBUG_GYRO ideal = 3" "DEBUG_NOTCH ideal = 8"
  by (simp_all add: ideal_def)

lemma pushes_steady:
  "0 < k \<Longrightarrow> pushes ideal k x (devClear_spec v) = \<lparr>m_n = k, m_mean = x, m_S = 0\<rparr>"
proof (induction k)
  case 0
  then show ?case by simp
next
  case (Suc k)
  then show ?case
    by (cases "k = 0") (simp_all add: pushes_def devPush_spec_def devClear_spec_def Let_def)
qed

lemma poweron_simps [simp]:
  "targetLooptime (poweron t) = 1000" "gyroAlign (poweron t) = 0"
  "gyroMovementCalibrationThreshold (poweron t) = t" "gyroSoftLpfHz (poweron t) = 0"
  "calibratingG (poweron t) = 0" "g (poweron t) = Vec 0 0 0" "gyroZero (poweron t) = Vec 0 0 0"
  "beeps (poweron t) = 0"
  by (simp_all add: poweron_def)

lemma cycles_poweron [simp]:
  "targetLooptime s = 1000 \<Longrightarrow> gyroCalculateCalibratingCycles ideal s = Some 1000"
  by (simp add: gyroCalculateCalibratingCycles_def)

lemma begin_poweron:
  "gyroSetCalibrationCycles ideal (poweron t) = Some ((poweron t)\<lparr>calibratingG := 1000\<rparr>)"
  by (simp add: gyroSetCalibrationCycles_def)

lemma aligned_steady [simp]:
  "gyroAligned ideal steadySample s = Vec 100 (- 50) 0"
  "gyroAligned ideal movedSample s = Vec 100 9950 0"
  by (simp_all add: gyroAligned_def steadySample_def movedSample_def vec_of_def)

lemma steadyRun_mid:
  assumes "0 < k" "k < 1000"
  shows "steadyRun t k = Some (midCalibration ideal k (Vec 100 (- 50) 0) ((poweron t)\<lparr>calibratingG := 1000\<rparr>))"
  unfolding steadyRun_def begin_poweron
  using assms by (simp add: steady_calibration)

subsection \<open>The committed offset and rounding half up\<close>

text \<open>
  As long as the sum plus half the cycle count is not negative, the committed offset is the
  mean rounded half up.  Below that, C's division truncates towards zero, and the
  committed offset is one above the mean rounded half up unless the division is exact.
\<close>

lemma half_up_div:
  fixes a n :: int
  assumes "0 < n"
  shows "\<lfloor>real_of_int a / real_of_int n + 1 / 2\<rfloor> = (a + n div 2) div n"
proof -
  have "real_of_int a / real_of_int n + 1 / 2 = real_of_int (2 * a + n) / real_of_int (2 * n)"
    using assms by (simp add: field_simps)
  then have "\<lfloor>real_of_int a / real_of_int n + 1 / 2\<rfloor> = (2 * a + n) div (2 * n)"
    by (simp only: floor_divide_of_int_eq)
  also have "(2 * a + n) div (2 * n) = (2 * a + n) div 2 div n"
    using assms by (simp add: zdiv_zmult2_eq)
  also have "(2 * a + n) div 2 = a + n div 2"
    by presburger
  finally show ?thesis .
qed

lemma sint_ucast_cycles: "sint (ucast (n :: uint16) :: int32) = uint n"
proof -
  have "uint n < 2 ^ 16" using uint_lt2p [of n] by simp
  also have "\<dots> < (2 ^ 31 :: int)" by simp
  finally have hi: "uint n < 2 ^ 31" .
  have "- (2 ^ 31) \<le> (0 :: int)" by simp
  also have "0 \<le> uint n" by simp
  finally have lo: "- (2 ^ 31) \<le> uint n" .
  from lo hi show ?thesis by (simp add: signed_ucast_eq signed_take_bit_int_eq_self)
qed

lemma sint_word_of_int32:
  "- (2 ^ 31) \<le> k \<Longrightarrow> k < 2 ^ 31 \<Longrightarrow> sint (word_of_int k :: int32) = k"
  by (simp add: sint_sbintrunc' signed_take_bit_int_eq_self)


lemma half_cycles_range:
  "0 \<le> (x :: int) \<Longrightarrow> x < 65536 \<Longrightarrow> - 2147483648 \<le> x div 2 \<and> x div 2 < 2147483648"
  by presburger

lemma calibratedZero_sint:
  assumes n: "n \<noteq> 0"
    and lo: "- (2 ^ 31) \<le> sint gsum + uint n div 2" and hi: "sint gsum + uint n div 2 < 2 ^ 31"
  shows "sint (calibratedZero n gsum) = (sint gsum + uint n div 2) sdiv uint n"
proof -
  let ?a = "sint gsum + uint n div 2"
  have un: "0 \<le> uint n" "uint n < 2 ^ 16" using uint_lt2p [of n] by simp_all
  have "uint n sdiv 2 = uint n div 2"
    using un(1) by (simp add: signed_divide_int_eq_divide_int)
  then have half: "sdiv32 (ucast n) 2 = word_of_int (uint n div 2)"
    by (simp add: sdiv32_def sint_ucast_cycles)
  have "gsum + word_of_int (uint n div 2) = (word_of_int ?a :: int32)"
    by simp
  then have sum: "sint (gsum + word_of_int (uint n div 2)) = ?a"
    using lo hi by (simp only: sint_word_of_int32)
  have pos: "0 < uint n" using n by (simp add: uint_0_iff order_less_le)
  have range: "?a sdiv uint n \<in> {- \<bar>?a\<bar>..\<bar>?a\<bar>}" by (rule sdiv_int_range)
  have neg: "?a sdiv uint n \<le> 0" if "?a < 0"
    using that pos by (simp add: signed_divide_int_def sgn_if pos_imp_zdiv_nonneg_iff)
  have "- (2 ^ 31) \<le> ?a sdiv uint n" "?a sdiv uint n < 2 ^ 31"
    using lo hi range neg by (cases "?a < 0"; simp)+
  then have "sint (word_of_int (?a sdiv uint n) :: int32) = ?a sdiv uint n"
    by (rule sint_word_of_int32)
  then show ?thesis
    by (simp add: calibratedZero_def half) (simp add: sdiv32_def sum sint_ucast_cycles)
qed

lemma calibratedZero_round_half_up:
  assumes "n \<noteq> 0" and "0 \<le> sint gsum + uint n div 2" and "sint gsum + uint n div 2 < 2 ^ 31"
  shows "sint (calibratedZero n gsum) = round_half_up (sint gsum) (uint n)"
proof -
  have pos: "0 < uint n" using assms(1) by (simp add: uint_0_iff order_less_le)
  have "sint (calibratedZero n gsum) = (sint gsum + uint n div 2) sdiv uint n"
    using assms by (intro calibratedZero_sint) simp_all
  also have "\<dots> = (sint gsum + uint n div 2) div uint n"
    using assms(2) pos by (simp add: signed_divide_int_eq_divide_int sgn_if)
  finally show ?thesis
    unfolding round_half_up_def half_up_div [OF pos] .
qed

lemma calibratedZero_truncates:
  assumes "n \<noteq> 0" and "sint gsum + uint n div 2 < 0" and "- (2 ^ 31) \<le> sint gsum + uint n div 2"
    and "\<not> uint n dvd sint gsum + uint n div 2"
  shows "sint (calibratedZero n gsum) = round_half_up (sint gsum) (uint n) + 1"
proof -
  have pos: "0 < uint n" using assms(1) by (simp add: uint_0_iff order_less_le)
  have "sint (calibratedZero n gsum) = (sint gsum + uint n div 2) sdiv uint n"
    using assms by (intro calibratedZero_sint) simp_all
  also have "\<dots> = (sint gsum + uint n div 2) div uint n + 1"
    using assms(2,4) pos by (simp add: signed_divide_int_eq_divide_int sgn_if)
  finally show ?thesis
    unfolding round_half_up_def half_up_div [OF pos] .
qed

subsection \<open>The scenario of the specification\<close>

lemma steadyRun_Suc:
  "steadyRun t (Suc k) = Option.bind (steadyRun t k) (gyroUpdate ideal (Some steadySample))"
proof -
  have r: "replicate (Suc k) (Some steadySample) = replicate k (Some steadySample) @ [Some steadySample]"
    by (simp add: replicate_append_same)
  have "gyroUpdates ideal (replicate (Suc k) (Some steadySample)) s =
        Option.bind (gyroUpdates ideal (replicate k (Some steadySample)) s)
          (gyroUpdate ideal (Some steadySample))" for s
    unfolding r gyroUpdates_append
    by (cases "gyroUpdates ideal (replicate k (Some steadySample)) s") (simp_all split: option.splits)
  then show ?thesis
    by (cases "gyroSetCalibrationCycles ideal (poweron t)") (simp_all add: steadyRun_def)
qed

lemma gyroUpdate_final:
  assumes "gyroCalculateCalibratingCycles ext s = Some n" "n \<noteq> 0" "calibratingG s = 1"
    and "\<And>a. \<not> movementDetected ext (gyroMovementCalibrationThreshold s)
                  (accumulatedVar ext (sampled ext gyroADCRaw s) a)"
    and lpf: "gyroSoftLpfHz s = 0"
  shows "gyroUpdate ext (Some gyroADCRaw) s =
     Some (s\<lparr>g := vec_of (accumulatedSum ext (sampled ext gyroADCRaw s)),
             var := vec_of (accumulatedVar ext (sampled ext gyroADCRaw s)),
             gyroADC := vec_of (\<lambda>a. 0 - calibratedZero n (accumulatedSum ext (sampled ext gyroADCRaw s) a)),
             gyroZero := vec_of (\<lambda>a. calibratedZero n (accumulatedSum ext (sampled ext gyroADCRaw s) a)),
             beeps := beeps s + 1, calibratingG := 0,
             gyroADCf := vec_of (\<lambda>a. float_of_int32 ext
                (0 - calibratedZero n (accumulatedSum ext (sampled ext gyroADCRaw s) a)))\<rparr>)"
  using lpf by (simp add: gyroUpdate_Some gyroSample_final [OF assms(1-4)] gyroFilter_bypass)

lemma steadyRun_999: "steadyRun t 999 = Some (lastCycle t)"
  by (simp add: steadyRun_mid lastCycle_def)

lemma lastCycle_simps [simp]:
  "calibratingG (lastCycle t) = 1"
  "targetLooptime (lastCycle t) = 1000"
  "gyroSoftLpfHz (lastCycle t) = 0"
  "gyroMovementCalibrationThreshold (lastCycle t) = t"
  "gyroZero (lastCycle t) = Vec 0 0 0"
  "beeps (lastCycle t) = 0"
  "g (lastCycle t) = Vec 99900 (- 49950) 0"
  "var (lastCycle t) = Vec \<lparr>m_n = 999, m_mean = 100, m_S = 0\<rparr> \<lparr>m_n = 999, m_mean = - 50, m_S = 0\<rparr>
                          \<lparr>m_n = 999, m_mean = 0, m_S = 0\<rparr>"
  by (simp_all add: lastCycle_def vec_of_def pushes_steady)

lemma lastCycle_sums [simp]:
  "accumulatedSum ideal (sampled ideal steadySample (lastCycle t)) X = 100000"
  "accumulatedSum ideal (sampled ideal steadySample (lastCycle t)) Y = - 50000"
  "accumulatedSum ideal (sampled ideal steadySample (lastCycle t)) Z = 0"
  by (simp_all add: accumulatedSum_def firstCycle_def)

lemma calibratedZero_values [simp]:
  "calibratedZero 1000 100000 = 100"
  "calibratedZero 1000 (- 50000) = - 49"
  "calibratedZero 1000 0 = 0"
  by (simp_all add: calibratedZero_def sdiv32_def)

lemma steadyRun_1000:
  "steadyRun 0 1000 =
     Some ((lastCycle 0)\<lparr>g := Vec 100000 (- 50000) 0,
             var := vec_of (accumulatedVar ideal (sampled ideal steadySample (lastCycle 0))),
             gyroADC := Vec (- 100) 49 0,
             gyroZero := Vec 100 (- 49) 0,
             beeps := 1, calibratingG := 0,
             gyroADCf := Vec (- 100) 49 0\<rparr>)"
proof -
  have "steadyRun 0 1000 = gyroUpdate ideal (Some steadySample) (lastCycle 0)"
    using steadyRun_Suc [of 0 999] by (simp add: steadyRun_999)
  also have "\<dots> = Some ((lastCycle 0)\<lparr>g := Vec 100000 (- 50000) 0,
             var := vec_of (accumulatedVar ideal (sampled ideal steadySample (lastCycle 0))),
             gyroADC := Vec (- 100) 49 0,
             gyroZero := Vec 100 (- 49) 0,
             beeps := 1, calibratingG := 0,
             gyroADCf := Vec (- 100) 49 0\<rparr>)"
    by (subst gyroUpdate_final [where n = 1000])
      (simp_all add: movementDetected_def vec_of_def)
  finally show ?thesis .
qed

text \<open>
  C1.  The scenario of the specification, on the code: loop time 1000, base cycle count
  1000, movement threshold 0 and the aligned sample (100, -50, 0) on every tick.  The
  calibration is incomplete after 999 ticks and complete after 1000, and the offsets
  committed then are (100, -49, 0): on the second axis the sum is -50000, and
  \<^verbatim>\<open>(-50000 + 500) / 1000\<close> truncates to -49.
\<close>

theorem steady_scenario_offsets:
  "map_option isGyroCalibrationComplete (steadyRun 0 999) = Some False \<and>
   map_option isGyroCalibrationComplete (steadyRun 0 1000) = Some True \<and>
   map_option gyroZero (steadyRun 0 1000) = Some (Vec 100 (- 49) 0)"
  by (simp add: steadyRun_999 steadyRun_1000 isGyroCalibrationComplete_def)

subsection \<open>A restart on the final cycle\<close>

text \<open>
  When some axis detects movement on the final cycle, the countdown is set to the cycle
  count and not decremented; the countdown goes down by at most one per tick, so the
  calibration stays active for at least that many further ticks.
\<close>

lemma calibrateAxes_restart:
  assumes n: "gyroCalculateCalibratingCycles ext s = Some n" and c: "calibratingG s = 1"
    and d: "distinct as"
    and m: "\<exists>a\<in>set as. movementDetected ext threshold (accumulatedVar ext s a)"
    and r: "calibrateAxes ext threshold as s = Some s'"
  shows "calibratingG s' = n"
  using n c d m r
proof (induction as arbitrary: s)
  case Nil
  then show ?case by simp
next
  case (Cons a as)
  show ?case
  proof (cases "movementDetected ext threshold (accumulatedVar ext s a)")
    case True
    with Cons.prems show ?thesis
      by (auto simp: calibrateAxis_final [OF Cons.prems(1,2)])
  next
    case False
    with Cons.prems have n0: "n \<noteq> 0"
      and run: "calibrateAxes ext threshold as (committed ext n s a) = Some s'"
      by (auto simp: calibrateAxis_final [OF Cons.prems(1,2)] split: if_splits)
    from Cons.prems(4) False obtain b where b: "b \<in> set as"
      and mb: "movementDetected ext threshold (accumulatedVar ext s b)"
      by auto
    from Cons.prems(3) b have "a \<noteq> b" by auto
    with mb have "movementDetected ext threshold (accumulatedVar ext (committed ext n s a) b)"
      by (simp add: accumulatedVar_committed)
    with b
    have "\<exists>b\<in>set as. movementDetected ext threshold (accumulatedVar ext (committed ext n s a) b)"
      by blast
    with Cons.prems run show ?thesis
      by (intro Cons.IH [of "committed ext n s a"]) simp_all
  qed
qed

lemma gyroUpdate_restart:
  assumes u: "gyroUpdate ext (Some gyroADCRaw) s = Some s'" and c: "calibratingG s = 1"
    and m: "movementDetected ext (gyroMovementCalibrationThreshold s)
              (accumulatedVar ext (sampled ext gyroADCRaw s) a)"
  shows "gyroCalculateCalibratingCycles ext s = Some (calibratingG s')"
proof -
  from u obtain s1 where s1: "gyroSample ext gyroADCRaw s = Some s1" and s': "s' = gyroFilter ext s1"
    by (auto simp: gyroUpdate_Some)
  have c0: "calibratingG s \<noteq> 0" using c by simp
  from s1 c0 obtain n where n: "gyroCalculateCalibratingCycles ext s = Some n"
    by (rule gyroSample_Some_cycles)
  from s1 c0 have "Option.bind
      (performGyroCalibration ext (gyroMovementCalibrationThreshold s) (sampled ext gyroADCRaw s))
      (\<lambda>s5. Some (zeroSubtracted s5)) = Some s1"
    by (simp add: gyroSample_eq)
  then obtain s5 where
    p: "calibrateAxes ext (gyroMovementCalibrationThreshold s) [X, Y, Z] (sampled ext gyroADCRaw s) = Some s5"
    and s5: "s1 = zeroSubtracted s5"
    unfolding performGyroCalibration_def bind_eq_Some_conv by auto
  have ain: "a \<in> set [X, Y, Z]" by (cases a) simp_all
  have ex: "\<exists>a\<in>set [X, Y, Z]. movementDetected ext (gyroMovementCalibrationThreshold s)
              (accumulatedVar ext (sampled ext gyroADCRaw s) a)"
    using m ain by (rule bexI)
  have n': "gyroCalculateCalibratingCycles ext (sampled ext gyroADCRaw s) = Some n"
    and c': "calibratingG (sampled ext gyroADCRaw s) = 1"
    using n c by simp_all
  have d: "distinct [X, Y, Z]" by simp
  have "calibratingG s5 = n"
    using n' c' d ex p by (rule calibrateAxes_restart)
  then show ?thesis by (simp add: n s' s5)
qed

lemma countdown_step_bound:
  assumes "gyroUpdate ext rd s = Some s'"
  shows "unat (calibratingG s) \<le> Suc (unat (calibratingG s'))"
proof (cases rd)
  case None
  with assms show ?thesis by (simp add: gyroUpdate_def)
next
  case (Some r)
  with assms obtain s1 where s1: "gyroSample ext r s = Some s1" and s': "s' = gyroFilter ext s1"
    by (auto simp: gyroUpdate_Some)
  have "unat c \<le> Suc (unat (c - 1))" for c :: uint16
    by (cases "c = 0") (simp_all add: unat_minus_one)
  with gyroSample_countdown [OF s1] show ?thesis
    by (auto simp: s')
qed

lemma calibration_stays_active:
  "gyroUpdates ext rds s = Some s' \<Longrightarrow> unat (calibratingG s) \<le> length rds + unat (calibratingG s')"
proof (induction rds arbitrary: s)
  case Nil
  then show ?case by simp
next
  case (Cons rd rds)
  from Cons.prems obtain t where t: "gyroUpdate ext rd s = Some t"
    and r: "gyroUpdates ext rds t = Some s'"
    by (auto split: option.splits)
  from countdown_step_bound [OF t] Cons.IH [OF r] show ?case by simp
qed

lemma restart_stays_active:
  assumes "gyroUpdate ext (Some gyroADCRaw) s = Some s'" and "calibratingG s = 1"
    and "movementDetected ext (gyroMovementCalibrationThreshold s)
              (accumulatedVar ext (sampled ext gyroADCRaw s) a)"
    and "gyroUpdates ext rds s' = Some s''" and "length rds < unat (calibratingG s')"
  shows "\<not> isGyroCalibrationComplete s''"
  using calibration_stays_active [OF assms(4)] assms(5)
  by (auto simp: isGyroCalibrationComplete_def)

lemma gyroSample_restart_Y:
  assumes n: "gyroCalculateCalibratingCycles ext s = Some n" and n0: "n \<noteq> 0"
    and c: "calibratingG s = 1"
    and x: "\<not> movementDetected ext (gyroMovementCalibrationThreshold s)
                  (accumulatedVar ext (sampled ext gyroADCRaw s) X)"
    and y: "movementDetected ext (gyroMovementCalibrationThreshold s)
                  (accumulatedVar ext (sampled ext gyroADCRaw s) Y)"
  shows "gyroSample ext gyroADCRaw s =
     Some (zeroSubtracted
       ((accumulated ext (committed ext n (sampled ext gyroADCRaw s) X) Y)\<lparr>calibratingG := n\<rparr>))"
proof -
  let ?s = "sampled ext gyroADCRaw s"
  have n': "gyroCalculateCalibratingCycles ext ?s = Some n" and c': "calibratingG ?s = 1"
    using n c by simp_all
  have nx: "gyroCalculateCalibratingCycles ext (committed ext n ?s X) = Some n"
    and cx: "calibratingG (committed ext n ?s X) = 1"
    using n c by simp_all
  have "performGyroCalibration ext (gyroMovementCalibrationThreshold s) ?s =
      Some ((accumulated ext (committed ext n ?s X) Y)\<lparr>calibratingG := n\<rparr>)"
    using n0 x y
    by (simp add: performGyroCalibration_def calibrateAxis_final [OF n' c']
        calibrateAxis_final [OF nx cx])
  then show ?thesis using c by (simp add: gyroSample_eq)
qed

lemma sint_ucast_threshold: "sint (ucast (t :: uint8) :: int32) = uint t"
proof -
  have "uint t < 2 ^ 8" using uint_lt2p [of t] by simp
  also have "\<dots> < (2 ^ 31 :: int)" by simp
  finally have hi: "uint t < 2 ^ 31" .
  have "- (2 ^ 31) \<le> (0 :: int)" by simp
  also have "0 \<le> uint t" by simp
  finally have lo: "- (2 ^ 31) \<le> uint t" .
  from lo hi show ?thesis by (simp add: signed_ucast_eq signed_take_bit_int_eq_self)
qed

lemma threshold_as_float [simp]:
  "(signed (ucast (t :: uint8) :: int32) :: real) = real_of_int (uint t)"
proof -
  have "(signed (ucast t :: int32) :: real) = of_int (sint (ucast t :: int32))"
    by (rule of_int_sint [symmetric])
  then show ?thesis by (simp only: sint_ucast_threshold)
qed

lemma threshold_nonneg [simp]: "\<not> (unsigned (t :: uint8) :: real) < 0"
proof -
  have "(unsigned t :: real) = real (unat t)" by (rule of_nat_unat [symmetric])
  then show ?thesis by (simp only: of_nat_less_0_iff not_False_eq_True)
qed

lemma lastCycle_still_X:
  "\<not> movementDetected ideal t (accumulatedVar ideal (sampled ideal movedSample (lastCycle t)) X)"
  by (simp add: movementDetected_def accumulatedVar_def firstCycle_def devPush_spec_def
      devStandardDeviation_spec_def devVariance_spec_def)

lemma lastCycle_moved_Y:
  "movementDetected ideal (32 :: uint8) (accumulatedVar ideal (sampled ideal movedSample (lastCycle 32)) Y)"
proof -
  have "accumulatedVar ideal (sampled ideal movedSample (lastCycle 32)) Y =
      \<lparr>m_n = 1000, m_mean = - 40, m_S = 99900000\<rparr>"
    by (simp add: accumulatedVar_def firstCycle_def devPush_spec_def)
  moreover have "(32 :: real) < sqrt 100000" by (rule real_less_rsqrt) simp
  ultimately show ?thesis
    by (simp add: movementDetected_def devStandardDeviation_spec_def devVariance_spec_def)
qed

lemma lastCycle_moved_sums [simp]:
  "accumulatedSum ideal (sampled ideal movedSample (lastCycle t)) X = 100000"
  by (simp_all add: accumulatedSum_def firstCycle_def)

text \<open>
  C5.  A restart on the final cycle, on the code: 999 ticks at rest with a movement
  threshold of 32, then a sample whose second axis deviates.  Before the tick the
  countdown is 1 and the offsets are (0, 0, 0).  The first axis passes the check and its
  offset is written before the second axis fails it: after the tick the countdown is back
  at 1000 and the offsets are (100, 0, 0).  The other parts of the claim hold in general,
  by \<open>gyroUpdate_restart\<close> and \<open>restart_stays_active\<close> above.
\<close>

theorem restart_keeps_partial_offset:
  "map_option calibratingG (steadyRun 32 999) = Some 1 \<and>
   map_option gyroZero (steadyRun 32 999) = Some (Vec 0 0 0) \<and>
   map_option calibratingG (Option.bind (steadyRun 32 999) (gyroUpdate ideal (Some movedSample))) = Some 1000 \<and>
   map_option gyroZero (Option.bind (steadyRun 32 999) (gyroUpdate ideal (Some movedSample))) = Some (Vec 100 0 0)"
proof -
  have "gyroSample ideal movedSample (lastCycle 32) =
     Some (zeroSubtracted
       ((accumulated ideal (committed ideal 1000 (sampled ideal movedSample (lastCycle 32)) X) Y)
          \<lparr>calibratingG := 1000\<rparr>))"
    using lastCycle_still_X [of 32] lastCycle_moved_Y
    by (intro gyroSample_restart_Y) simp_all
  then show ?thesis
    by (simp add: steadyRun_999 gyroUpdate_Some)
qed

subsection \<open>Restarting a calibration\<close>

lemma accumulatorsApartI:
  assumes "\<And>a. a \<notin> U \<Longrightarrow> get_axis G a = get_axis (g s) a \<and> E (get_axis (var s) a) (get_axis V a)"
  shows "accumulatorsApart E U s (s\<lparr>g := G, var := V\<rparr>)"
  using assms by (simp add: accumulatorsApart_def)

lemma accumulatorsApart_eq:
  assumes "accumulatorsApart E U s t"
  shows "t = s\<lparr>g := g t, var := var t\<rparr>"
proof -
  from assms have eq: "t\<lparr>g := g s, var := var s\<rparr> = s"
    by (simp add: accumulatorsApart_def)
  have "(t\<lparr>g := g s, var := var s\<rparr>)\<lparr>g := g t, var := var t\<rparr> = t" by simp
  then show ?thesis unfolding eq by simp
qed

lemma accumulatorsApart_axisD:
  "accumulatorsApart E U s t \<Longrightarrow> a \<notin> U \<Longrightarrow>
     get_axis (g t) a = get_axis (g s) a \<and> E (get_axis (var s) a) (get_axis (var t) a)"
  by (simp add: accumulatorsApart_def)

lemma accumulatorsApart_mono:
  "accumulatorsApart E U s t \<Longrightarrow> U \<subseteq> U' \<Longrightarrow> accumulatorsApart E U' s t"
  by (auto simp: accumulatorsApart_def)

lemma override_cycles [simp]:
  "gyroCalculateCalibratingCycles ext (s\<lparr>g := G, var := V\<rparr>) = gyroCalculateCalibratingCycles ext s"
  "firstCycle ext (s\<lparr>g := G, var := V\<rparr>) = firstCycle ext s"
  by (simp_all add: gyroCalculateCalibratingCycles_def firstCycle_def)

lemma accumulatorsApart_axis:
  assumes ap: "accumulatorsApart E U s t"
    and clear: "\<And>v w. E (devClear ext v) (devClear ext w)"
    and push: "\<And>v w x. E v w \<Longrightarrow> E (devPush ext v x) (devPush ext w x)"
    and dev: "\<And>v w. E v w \<Longrightarrow> devStandardDeviation ext v = devStandardDeviation ext w"
    and a: "firstCycle ext s \<or> a \<notin> U"
  shows "accumulatedSum ext t a = accumulatedSum ext s a"
    and "E (accumulatedVar ext s a) (accumulatedVar ext t a)"
    and "movementDetected ext threshold (accumulatedVar ext t a) =
         movementDetected ext threshold (accumulatedVar ext s a)"
    and "accumulatorsApart E (U - {a}) (accumulated ext s a) (accumulated ext t a)"
    and "accumulatorsApart E (U - {a}) (committed ext n s a) (committed ext n t a)"
    and "accumulatorsApart E UNIV ((accumulated ext s a)\<lparr>calibratingG := n\<rparr>)
           ((accumulated ext t a)\<lparr>calibratingG := n\<rparr>)"
proof -
  define G V where "G = g t" and "V = var t"
  have t: "t = s\<lparr>g := G, var := V\<rparr>"
    unfolding G_def V_def using ap by (rule accumulatorsApart_eq)
  have ax: "get_axis G b = get_axis (g s) b \<and> E (get_axis (var s) b) (get_axis V b)"
    if "b \<notin> U" for b
    unfolding G_def V_def using ap that by (rule accumulatorsApart_axisD)
  show sum: "accumulatedSum ext t a = accumulatedSum ext s a"
    using a ax [of a] by (auto simp: t accumulatedSum_def)
  show var: "E (accumulatedVar ext s a) (accumulatedVar ext t a)"
    using a ax [of a] by (auto simp: t accumulatedVar_def intro: push clear)
  show "movementDetected ext threshold (accumulatedVar ext t a) =
         movementDetected ext threshold (accumulatedVar ext s a)"
    using dev [OF var] by (simp add: movementDetected_def)
  have acc: "accumulated ext t a =
      (accumulated ext s a)\<lparr>g := set_axis G a (accumulatedSum ext s a),
                              var := set_axis V a (accumulatedVar ext t a)\<rparr>"
    unfolding accumulated_def sum [symmetric] by (simp add: t)
  have rest: "get_axis (set_axis G a (accumulatedSum ext s a)) b = get_axis (g (accumulated ext s a)) b \<and>
      E (get_axis (var (accumulated ext s a)) b) (get_axis (set_axis V a (accumulatedVar ext t a)) b)"
    if "b \<notin> U - {a}" for b
    using that ax [of b] var by (cases "a = b") simp_all
  show "accumulatorsApart E (U - {a}) (accumulated ext s a) (accumulated ext t a)"
    unfolding acc by (rule accumulatorsApartI) (rule rest)
  have com: "committed ext n t a =
      (committed ext n s a)\<lparr>g := set_axis G a (accumulatedSum ext s a),
                              var := set_axis V a (accumulatedVar ext t a)\<rparr>"
    unfolding committed_def acc sum by (simp add: t)
  show "accumulatorsApart E (U - {a}) (committed ext n s a) (committed ext n t a)"
    unfolding com by (rule accumulatorsApartI) (use rest in simp)
  show "accumulatorsApart E UNIV ((accumulated ext s a)\<lparr>calibratingG := n\<rparr>)
           ((accumulated ext t a)\<lparr>calibratingG := n\<rparr>)"
    unfolding acc by (simp add: accumulatorsApart_def)
qed

lemma accumulatorsApart_map:
  assumes ap: "accumulatorsApart E U s t"
    and comm: "\<And>G V. f (s\<lparr>g := G, var := V\<rparr>) = (f s)\<lparr>g := G, var := V\<rparr>"
    and keep: "g (f s) = g s" "var (f s) = var s"
  shows "accumulatorsApart E U (f s) (f t)"
proof -
  have "f t = f (s\<lparr>g := g t, var := var t\<rparr>)"
    using accumulatorsApart_eq [OF ap] by simp
  then have ft: "f t = (f s)\<lparr>g := g t, var := var t\<rparr>" by (simp only: comm)
  show ?thesis
    unfolding ft
    by (rule accumulatorsApartI) (use accumulatorsApart_axisD [OF ap] keep in simp)
qed

lemma override_stage:
  "tapGyro ext a (s\<lparr>g := G, var := V\<rparr>) = (tapGyro ext a s)\<lparr>g := G, var := V\<rparr>"
  "lowpassStage ext a (s\<lparr>g := G, var := V\<rparr>) = (lowpassStage ext a s)\<lparr>g := G, var := V\<rparr>"
  "tapNotch ext a (s\<lparr>g := G, var := V\<rparr>) = (tapNotch ext a s)\<lparr>g := G, var := V\<rparr>"
  "notchStage1 ext a (s\<lparr>g := G, var := V\<rparr>) = (notchStage1 ext a s)\<lparr>g := G, var := V\<rparr>"
  "notchStage2 ext a (s\<lparr>g := G, var := V\<rparr>) = (notchStage2 ext a s)\<lparr>g := G, var := V\<rparr>"
  "roundOutput ext a (s\<lparr>g := G, var := V\<rparr>) = (roundOutput ext a s)\<lparr>g := G, var := V\<rparr>"
  by (simp_all add: tapGyro_def lowpassStage_def tapNotch_def notchStage1_def notchStage2_def
      roundOutput_def Let_def split_def)

lemma override_filterAxis:
  "filterAxis ext (s\<lparr>g := G, var := V\<rparr>) a = (filterAxis ext s a)\<lparr>g := G, var := V\<rparr>"
  by (simp add: filterAxis_def override_stage)

lemma override_gyroFilter:
  "gyroFilter ext (s\<lparr>g := G, var := V\<rparr>) = (gyroFilter ext s)\<lparr>g := G, var := V\<rparr>"
  by (simp add: gyroFilter_def override_filterAxis bypassAxis_def)

lemma override_sampled:
  "sampled ext r (s\<lparr>g := G, var := V\<rparr>) = (sampled ext r s)\<lparr>g := G, var := V\<rparr>"
  by (simp add: sampled_def gyroAligned_def)

lemma override_zeroSubtracted:
  "zeroSubtracted (s\<lparr>g := G, var := V\<rparr>) = (zeroSubtracted s)\<lparr>g := G, var := V\<rparr>"
  by (simp add: zeroSubtracted_def)

lemma accumulatorsApart_cycles:
  assumes "accumulatorsApart E U s t"
  shows "gyroCalculateCalibratingCycles ext t = gyroCalculateCalibratingCycles ext s"
    and "firstCycle ext t = firstCycle ext s"
    and "calibratingG t = calibratingG s"
    and "gyroMovementCalibrationThreshold t = gyroMovementCalibrationThreshold s"
    and "beeps t = beeps s"
  by (subst accumulatorsApart_eq [OF assms], simp)+

lemma firstCycle_step [simp]:
  "firstCycle ext (accumulated ext s a) = firstCycle ext s"
  "firstCycle ext (committed ext n s a) = firstCycle ext s"
  by (simp_all add: firstCycle_def)

lemma cycles_countdown_update [simp]:
  "gyroCalculateCalibratingCycles ext (s\<lparr>calibratingG := c\<rparr>) = gyroCalculateCalibratingCycles ext s"
  by (simp add: gyroCalculateCalibratingCycles_def)

lemma calibrateAxis_None:
  "gyroCalculateCalibratingCycles ext s = None \<Longrightarrow> calibrateAxis ext threshold a s = None"
  by (simp add: calibrateAxis_def isOnFirstGyroCalibrationCycle_def)

lemma calibrateAxes_apart:
  assumes clear: "\<And>v w. E (devClear ext v) (devClear ext w)"
    and push: "\<And>v w x. E v w \<Longrightarrow> E (devPush ext v x) (devPush ext w x)"
    and dev: "\<And>v w. E v w \<Longrightarrow> devStandardDeviation ext v = devStandardDeviation ext w"
  shows "accumulatorsApart E U s t \<Longrightarrow> firstCycle ext s \<or> set as \<inter> U = {} \<Longrightarrow>
     rel_option (\<lambda>r r'. accumulatorsApart E (if firstCycle ext r then UNIV else U - set as) r r')
       (calibrateAxes ext threshold as s) (calibrateAxes ext threshold as t)"
proof (induction as arbitrary: s t U)
  case Nil
  have c: "calibratingG t = calibratingG s" "beeps t = beeps s"
    using Nil.prems(1) by (rule accumulatorsApart_cycles)+
  have "accumulatorsApart E U' (s\<lparr>beeps := b, calibratingG := k\<rparr>) (t\<lparr>beeps := b, calibratingG := k\<rparr>)"
    and "accumulatorsApart E U' (s\<lparr>calibratingG := k\<rparr>) (t\<lparr>calibratingG := k\<rparr>)"
    if "U \<subseteq> U'" for b k U'
    using accumulatorsApart_map [OF accumulatorsApart_mono [OF Nil.prems(1) that],
        of "\<lambda>s. s\<lparr>beeps := b, calibratingG := k\<rparr>"]
      accumulatorsApart_map [OF accumulatorsApart_mono [OF Nil.prems(1) that],
        of "\<lambda>s. s\<lparr>calibratingG := k\<rparr>"]
    by simp_all
  then show ?case
    by (simp add: Let_def isOnFinalGyroCalibrationCycle_def c)
next
  case (Cons a as)
  note ap = Cons.prems(1)
  have cyc: "gyroCalculateCalibratingCycles ext t = gyroCalculateCalibratingCycles ext s"
    and c: "calibratingG t = calibratingG s"
    using ap by (rule accumulatorsApart_cycles)+
  show ?case
  proof (cases "gyroCalculateCalibratingCycles ext s")
    case None
    then show ?thesis by (simp add: calibrateAxis_None cyc)
  next
    case (Some n)
    have a: "firstCycle ext s \<or> a \<notin> U" using Cons.prems(2) by auto
    note ax = accumulatorsApart_axis [OF ap clear push dev a]
    have nt: "gyroCalculateCalibratingCycles ext t = Some n" using Some cyc by simp
    have fr: "firstCycle ext ((accumulated ext s a)\<lparr>calibratingG := n\<rparr>)"
      using Some by (simp add: firstCycle_def)
    have rem': "firstCycle ext s \<or> set as \<inter> (U - {a}) = {}"
      using Cons.prems(2) by auto
    have sub: "U - {a} - set as = U - set (a # as)" by auto
    have next1: "rel_option (\<lambda>r r'. accumulatorsApart E (if firstCycle ext r then UNIV else U - set (a # as)) r r')
        (calibrateAxes ext threshold as (accumulated ext s a))
        (calibrateAxes ext threshold as (accumulated ext t a))"
      using Cons.IH [OF ax(4)] rem' unfolding sub by simp
    have next2: "rel_option (\<lambda>r r'. accumulatorsApart E (if firstCycle ext r then UNIV else U - set (a # as)) r r')
        (calibrateAxes ext threshold as (committed ext n s a))
        (calibrateAxes ext threshold as (committed ext n t a))"
      using Cons.IH [OF ax(5)] rem' unfolding sub by simp
    show ?thesis
    proof (cases "calibratingG s = 1")
      case False
      then have "calibrateAxis ext threshold a s = Some (Next (accumulated ext s a))"
        and "calibrateAxis ext threshold a t = Some (Next (accumulated ext t a))"
        using Some nt c by (simp_all add: calibrateAxis_nonfinal)
      with next1 show ?thesis by simp
    next
      case True
      then have ct: "calibratingG t = 1" using c by simp
      show ?thesis
      proof (cases "movementDetected ext threshold (accumulatedVar ext s a)")
        case True
        then have "calibrateAxis ext threshold a s =
            Some (Returned ((accumulated ext s a)\<lparr>calibratingG := n\<rparr>))"
          and "calibrateAxis ext threshold a t =
            Some (Returned ((accumulated ext t a)\<lparr>calibratingG := n\<rparr>))"
          using ax(3) [of threshold] \<open>calibratingG s = 1\<close> ct
          by (simp_all add: calibrateAxis_final [OF Some] calibrateAxis_final [OF nt])
        with ax(6) [of n] fr show ?thesis by simp
      next
        case False
        show ?thesis
        proof (cases "n = 0")
          case True
          with False have "calibrateAxis ext threshold a s = None"
            and "calibrateAxis ext threshold a t = None"
            using ax(3) [of threshold] \<open>calibratingG s = 1\<close> ct
            by (simp_all add: calibrateAxis_final [OF Some] calibrateAxis_final [OF nt])
          then show ?thesis by simp
        next
          case n0: False
          with False have "calibrateAxis ext threshold a s = Some (Next (committed ext n s a))"
            and "calibrateAxis ext threshold a t = Some (Next (committed ext n t a))"
            using ax(3) [of threshold] \<open>calibratingG s = 1\<close> ct
            by (simp_all add: calibrateAxis_final [OF Some] calibrateAxis_final [OF nt])
          with next2 show ?thesis by simp
        qed
      qed
    qed
  qed
qed

lemma firstCycle_frame [simp]:
  "firstCycle ext (sampled ext r s) = firstCycle ext s"
  "firstCycle ext (zeroSubtracted s) = firstCycle ext s"
  "firstCycle ext (gyroFilter ext s) = firstCycle ext s"
  by (simp_all add: firstCycle_def gyroCalculateCalibratingCycles_def)

lemma axes_UNIV: "{X, Y, Z} = UNIV"
  using axis.exhaust by auto

lemma windowsApart_publish:
  assumes "windowsApart ext E s t"
  shows "windowsApart ext E (gyroFilter ext (zeroSubtracted s)) (gyroFilter ext (zeroSubtracted t))"
proof -
  have "accumulatorsApart E U (zeroSubtracted s) (zeroSubtracted t)"
    if "accumulatorsApart E U s t" for U
    using that by (rule accumulatorsApart_map) (simp_all add: override_zeroSubtracted)
  moreover have "accumulatorsApart E U (gyroFilter ext s') (gyroFilter ext t')"
    if "accumulatorsApart E U s' t'" for U s' t'
    using that by (rule accumulatorsApart_map) (simp_all add: override_gyroFilter)
  ultimately show ?thesis
    using assms by (simp add: windowsApart_def)
qed

lemma windowsApart_sample:
  assumes clear: "\<And>v w. E (devClear ext v) (devClear ext w)"
    and push: "\<And>v w x. E v w \<Longrightarrow> E (devPush ext v x) (devPush ext w x)"
    and dev: "\<And>v w. E v w \<Longrightarrow> devStandardDeviation ext v = devStandardDeviation ext w"
    and ap: "windowsApart ext E s t"
  shows "rel_option (windowsApart ext E) (gyroUpdate ext rd s) (gyroUpdate ext rd t)"
proof (cases rd)
  case None
  with ap show ?thesis by (simp add: gyroUpdate_def)
next
  case (Some r)
  let ?U = "if firstCycle ext s then UNIV else {} :: axis set"
  from ap have ap': "accumulatorsApart E ?U s t" by (simp add: windowsApart_def)
  have c: "calibratingG t = calibratingG s" and th: "gyroMovementCalibrationThreshold t = gyroMovementCalibrationThreshold s"
    using ap' by (rule accumulatorsApart_cycles)+
  have sm: "accumulatorsApart E ?U (sampled ext r s) (sampled ext r t)"
    using ap' by (rule accumulatorsApart_map) (simp_all add: override_sampled)
  have step: "rel_option (windowsApart ext E)
      (if calibratingG s \<noteq> 0
       then performGyroCalibration ext (gyroMovementCalibrationThreshold s) (sampled ext r s)
       else Some (sampled ext r s))
      (if calibratingG s \<noteq> 0
       then performGyroCalibration ext (gyroMovementCalibrationThreshold s) (sampled ext r t)
       else Some (sampled ext r t))"
  proof (cases "calibratingG s = 0")
    case True
    with sm show ?thesis by (simp add: windowsApart_def)
  next
    case False
    have "rel_option (\<lambda>u u'. accumulatorsApart E (if firstCycle ext u then UNIV else ?U - set [X, Y, Z]) u u')
       (calibrateAxes ext (gyroMovementCalibrationThreshold s) [X, Y, Z] (sampled ext r s))
       (calibrateAxes ext (gyroMovementCalibrationThreshold s) [X, Y, Z] (sampled ext r t))"
      by (rule calibrateAxes_apart [OF clear push dev sm]) (simp_all add: axes_UNIV)
    then have "rel_option (windowsApart ext E)
       (calibrateAxes ext (gyroMovementCalibrationThreshold s) [X, Y, Z] (sampled ext r s))
       (calibrateAxes ext (gyroMovementCalibrationThreshold s) [X, Y, Z] (sampled ext r t))"
      by (rule option.rel_mono_strong)
        (simp add: windowsApart_def axes_UNIV split: if_splits del: calibrateAxes.simps)
    with False show ?thesis by (simp add: performGyroCalibration_def del: calibrateAxes.simps)
  qed
  have main: "rel_option (windowsApart ext E)
      (map_option (\<lambda>u. gyroFilter ext (zeroSubtracted u))
        (if calibratingG s \<noteq> 0
         then performGyroCalibration ext (gyroMovementCalibrationThreshold s) (sampled ext r s)
         else Some (sampled ext r s)))
      (map_option (\<lambda>u. gyroFilter ext (zeroSubtracted u))
        (if calibratingG s \<noteq> 0
         then performGyroCalibration ext (gyroMovementCalibrationThreshold s) (sampled ext r t)
         else Some (sampled ext r t)))"
    unfolding option.rel_map
    using step by (rule option.rel_mono_strong) (rule windowsApart_publish)
  have upd: "gyroUpdate ext (Some r) u =
      map_option (\<lambda>u. gyroFilter ext (zeroSubtracted u))
        (if calibratingG u \<noteq> 0
         then performGyroCalibration ext (gyroMovementCalibrationThreshold u) (sampled ext r u)
         else Some (sampled ext r u))" for u
    by (simp add: gyroUpdate_Some gyroSample_eq split: bind_splits)
  show ?thesis
    unfolding Some upd [of s] upd [of t] c th by (rule main)
qed

lemma windowsApart_run:
  assumes clear: "\<And>v w. E (devClear ext v) (devClear ext w)"
    and push: "\<And>v w x. E v w \<Longrightarrow> E (devPush ext v x) (devPush ext w x)"
    and dev: "\<And>v w. E v w \<Longrightarrow> devStandardDeviation ext v = devStandardDeviation ext w"
  shows "windowsApart ext E s t \<Longrightarrow>
     rel_option (windowsApart ext E) (gyroUpdates ext rds s) (gyroUpdates ext rds t)"
proof (induction rds arbitrary: s t)
  case Nil
  then show ?case by simp
next
  case (Cons rd rds)
  from windowsApart_sample [OF clear push dev Cons.prems, of rd]
  show ?case
    by (cases "gyroUpdate ext rd s"; cases "gyroUpdate ext rd t") (simp_all add: Cons.IH)
qed

lemma cycles_unat:
  fixes c l :: uint32
  shows "unat (ucast (c div l * c) :: uint16) = (unat c div unat l) * unat c mod 65536"
proof -
  have "unat (ucast (c div l * c) :: uint16) = unat (c div l * c) mod 2 ^ 16"
    by (simp add: unsigned_ucast_eq take_bit_eq_mod)
  also have "unat (c div l * c) = (unat c div unat l) * unat c mod 2 ^ 32"
    by (simp add: unat_word_ariths unat_div mod_mult_left_eq)
  also have "(unat c div unat l) * unat c mod 2 ^ 32 mod 2 ^ 16 = (unat c div unat l) * unat c mod 2 ^ 16"
    by (rule mod_mod_cancel) simp
  finally show ?thesis by simp
qed

text \<open>
  C9, as amended.  For a nonzero loop time, \<^verbatim>\<open>gyroSetCalibrationCycles\<close> sets the
  countdown to \<^verbatim>\<open>(CALIBRATING_GYRO_CYCLES / targetLooptime) * CALIBRATING_GYRO_CYCLES\<close>,
  reduced modulo 65536 by the return type, and changes nothing else: the sums and the
  deviation accumulators are not touched by the call.  They are reset axis by axis on the
  first tick of the new window, before a sample is added, so that what they held before
  the call has no influence on anything else: started from two states that differ only in
  the accumulators, the same ticks lead to states that differ only in the accumulators
  (both runs fail, or neither).  This holds whenever clearing a deviation accumulator
  forgets its content, up to a relation \<open>E\<close> that adding a sample preserves and under
  which the standard deviation is the same.
\<close>

theorem begin_calibration_window:
  assumes clear: "\<And>v w. E (devClear ext v) (devClear ext w)"
    and push: "\<And>v w x. E v w \<Longrightarrow> E (devPush ext v x) (devPush ext w x)"
    and dev: "\<And>v w. E v w \<Longrightarrow> devStandardDeviation ext v = devStandardDeviation ext w"
    and looptime: "targetLooptime s \<noteq> 0"
  shows "gyroSetCalibrationCycles ext s =
           Some (s\<lparr>calibratingG :=
                   ucast (CALIBRATING_GYRO_CYCLES ext div targetLooptime s * CALIBRATING_GYRO_CYCLES ext)\<rparr>) \<and>
         unat (ucast (CALIBRATING_GYRO_CYCLES ext div targetLooptime s * CALIBRATING_GYRO_CYCLES ext) :: uint16) =
           (unat (CALIBRATING_GYRO_CYCLES ext) div unat (targetLooptime s))
             * unat (CALIBRATING_GYRO_CYCLES ext) mod 65536 \<and>
         rel_option sameButAccumulators
           (Option.bind (gyroSetCalibrationCycles ext s) (gyroUpdates ext rds))
           (Option.bind (gyroSetCalibrationCycles ext (s\<lparr>g := G, var := V\<rparr>)) (gyroUpdates ext rds))"
proof -
  let ?n = "ucast (CALIBRATING_GYRO_CYCLES ext div targetLooptime s * CALIBRATING_GYRO_CYCLES ext) :: uint16"
  have n: "gyroCalculateCalibratingCycles ext s = Some ?n"
    using looptime by (simp add: gyroCalculateCalibratingCycles_def)
  have b: "gyroSetCalibrationCycles ext s = Some (s\<lparr>calibratingG := ?n\<rparr>)"
    by (simp add: gyroSetCalibrationCycles_def n)
  have b': "gyroSetCalibrationCycles ext (s\<lparr>g := G, var := V\<rparr>) =
      Some (s\<lparr>calibratingG := ?n\<rparr>\<lparr>g := G, var := V\<rparr>)"
    by (simp add: gyroSetCalibrationCycles_def n)
  have "firstCycle ext (s\<lparr>calibratingG := ?n\<rparr>)"
    by (simp add: firstCycle_def n)
  then have wa: "windowsApart ext E (s\<lparr>calibratingG := ?n\<rparr>) (s\<lparr>calibratingG := ?n\<rparr>\<lparr>g := G, var := V\<rparr>)"
    by (simp add: windowsApart_def accumulatorsApart_def)
  have "rel_option (windowsApart ext E)
      (gyroUpdates ext rds (s\<lparr>calibratingG := ?n\<rparr>))
      (gyroUpdates ext rds (s\<lparr>calibratingG := ?n\<rparr>\<lparr>g := G, var := V\<rparr>))"
    using clear push dev wa by (rule windowsApart_run)
  then have "rel_option sameButAccumulators
      (gyroUpdates ext rds (s\<lparr>calibratingG := ?n\<rparr>))
      (gyroUpdates ext rds (s\<lparr>calibratingG := ?n\<rparr>\<lparr>g := G, var := V\<rparr>))"
    by (rule option.rel_mono_strong)
      (simp add: windowsApart_def accumulatorsApart_def sameButAccumulators_def)
  then show ?thesis
    unfolding b b' by (simp add: cycles_unat)
qed

subsection \<open>Evaluations on the scenarios\<close>

lemma steadyRun_1: "steadyRun t (Suc 0) = Some (midCalibration ideal 1 (Vec 100 (- 50) 0) ((poweron t)\<lparr>calibratingG := 1000\<rparr>))"
  unfolding steadyRun_def begin_poweron
  using steady_calibration [of ideal "(poweron t)\<lparr>calibratingG := 1000\<rparr>" steadySample "Vec 100 (- 50) 0" 1]
  by simp

text \<open>
  C9, as stated, fails: after one calibration tick the sums are (100, -50, 0), and a call
  of \<^verbatim>\<open>gyroSetCalibrationCycles\<close> leaves them there.
\<close>

theorem begin_keeps_accumulators:
  "map_option g (Option.bind (steadyRun 0 1) (gyroSetCalibrationCycles ideal)) = Some (Vec 100 (- 50) 0) \<and>
   map_option g (Option.bind (steadyRun 0 1) (gyroSetCalibrationCycles ideal)) \<noteq> Some (Vec 0 0 0)"
  by (simp add: steadyRun_1 gyroSetCalibrationCycles_def vec_of_def)

lemma recalibration:
  "Option.bind (steadyRun 0 1000) (gyroSetCalibrationCycles ideal) =
     Some ((lastCycle 0)\<lparr>g := Vec 100000 (- 50000) 0,
             var := vec_of (accumulatedVar ideal (sampled ideal steadySample (lastCycle 0))),
             gyroADC := Vec (- 100) 49 0,
             gyroZero := Vec 100 (- 49) 0,
             beeps := 1, calibratingG := 1000,
             gyroADCf := Vec (- 100) 49 0\<rparr>)"
  by (simp add: steadyRun_1000 gyroSetCalibrationCycles_def)

text \<open>
  C3, as stated, fails: with the offsets (100, -49, 0) of a finished calibration in place,
  the first tick of a new calibration (countdown 1000, not the final cycle) sets them to 0.
\<close>

theorem zero_offset_cleared_on_first_cycle:
  "map_option gyroZero (Option.bind (steadyRun 0 1000) (gyroSetCalibrationCycles ideal)) =
     Some (Vec 100 (- 49) 0) \<and>
   map_option calibratingG (Option.bind (steadyRun 0 1000) (gyroSetCalibrationCycles ideal)) =
     Some 1000 \<and>
   map_option gyroZero
     (Option.bind (Option.bind (steadyRun 0 1000) (gyroSetCalibrationCycles ideal))
        (gyroUpdate ideal (Some steadySample))) = Some (Vec 0 0 0)"
  unfolding recalibration
  by (simp add: gyroUpdate_Some gyroSample_nonfinal [where n = 1000])

text \<open>
  C4.  The final tick of the scenario, on the code: the calibration is still active when
  tick 1000 starts; the calibration step zeroes the sample and commits the offsets
  (100, -49, 0), and \<^verbatim>\<open>gyroUpdate\<close> then subtracts them from the zeroed sample,
  so that the published integer and floating point outputs are (-100, 49, 0) where the
  comment in the source and the claim promise zeros.
\<close>

theorem final_cycle_publishes_offset:
  "map_option isGyroCalibrationComplete (steadyRun 0 999) = Some False \<and>
   map_option gyroADC (steadyRun 0 1000) = Some (Vec (- 100) 49 0) \<and>
   map_option gyroADCf (steadyRun 0 1000) = Some (Vec (- 100) 49 0) \<and>
   map_option gyroZero (steadyRun 0 1000) = Some (Vec 100 (- 49) 0)"
  by (simp add: steadyRun_999 steadyRun_1000 isGyroCalibrationComplete_def)

text \<open>
  The restart path publishes raw data as well: when the first axis detects movement on the
  final cycle, the function returns before the other two axes are zeroed, and their raw
  samples are published.
\<close>

lemma gyroSample_restart_X:
  assumes n: "gyroCalculateCalibratingCycles ext s = Some n"
    and c: "calibratingG s = 1"
    and x: "movementDetected ext (gyroMovementCalibrationThreshold s)
                  (accumulatedVar ext (sampled ext gyroADCRaw s) X)"
  shows "gyroSample ext gyroADCRaw s =
     Some (zeroSubtracted ((accumulated ext (sampled ext gyroADCRaw s) X)\<lparr>calibratingG := n\<rparr>))"
proof -
  let ?s = "sampled ext gyroADCRaw s"
  have n': "gyroCalculateCalibratingCycles ext ?s = Some n" and c': "calibratingG ?s = 1"
    using n c by simp_all
  have "performGyroCalibration ext (gyroMovementCalibrationThreshold s) ?s =
      Some ((accumulated ext ?s X)\<lparr>calibratingG := n\<rparr>)"
    using x by (simp add: performGyroCalibration_def calibrateAxis_final [OF n' c'])
  then show ?thesis using c by (simp add: gyroSample_eq)
qed

lemma aligned_jerk [simp]: "gyroAligned ideal jerkSample s = Vec 9950 (- 50) 7"
  by (simp add: gyroAligned_def jerkSample_def vec_of_def)

lemma lastCycle_jerk_X:
  "movementDetected ideal (32 :: uint8) (accumulatedVar ideal (sampled ideal jerkSample (lastCycle 32)) X)"
proof -
  have "accumulatedVar ideal (sampled ideal jerkSample (lastCycle 32)) X =
      \<lparr>m_n = 1000, m_mean = 10985 / 100, m_S = 193850955 / 2\<rparr>"
    by (simp add: accumulatedVar_def firstCycle_def devPush_spec_def)
  moreover have "(32 :: real) < sqrt (193850955 / 2 / 999)" by (rule real_less_rsqrt) simp
  ultimately show ?thesis
    by (simp add: movementDetected_def devStandardDeviation_spec_def devVariance_spec_def)
qed

lemma restart_publishes_raw_axes:
  "map_option calibratingG (steadyRun 32 999) = Some 1 \<and>
   map_option calibratingG (Option.bind (steadyRun 32 999) (gyroUpdate ideal (Some jerkSample))) = Some 1000 \<and>
   map_option gyroADC (Option.bind (steadyRun 32 999) (gyroUpdate ideal (Some jerkSample))) = Some (Vec 0 (- 50) 7) \<and>
   map_option gyroADCf (Option.bind (steadyRun 32 999) (gyroUpdate ideal (Some jerkSample))) = Some (Vec 0 (- 50) 7)"
proof -
  let ?r = "zeroSubtracted
       ((accumulated ideal (sampled ideal jerkSample (lastCycle 32)) X)\<lparr>calibratingG := 1000\<rparr>)"
  have s: "gyroSample ideal jerkSample (lastCycle 32) = Some ?r"
    using lastCycle_jerk_X by (intro gyroSample_restart_X) simp_all
  have lpf: "gyroSoftLpfHz ?r = 0"
    by (simp add: accumulated_def)
  have adc: "gyroADC ?r = Vec 0 (- 50) 7"
    by (simp add: vec_of_def)
  show ?thesis
    by (simp add: steadyRun_999 gyroUpdate_Some s gyroFilter_bypass [OF lpf] adc vec_of_def)
qed

text \<open>
  C2.  The offset committed on the final cycle of the scenario, against the rounding that
  the specification names: the sums are (100000, -50000, 0) over 1000 cycles; for the
  first axis the code commits 100, the mean rounded half up; for the second axis it
  commits -49, where the mean rounded half up is -50.
\<close>

theorem truncation_on_negative_sum:
  "map_option g (steadyRun 0 1000) = Some (Vec 100000 (- 50000) 0) \<and>
   map_option gyroZero (steadyRun 0 1000) = Some (Vec 100 (- 49) 0) \<and>
   round_half_up (sint (100000 :: int32)) (uint (1000 :: uint16)) = sint (100 :: int32) \<and>
   round_half_up (sint (- 50000 :: int32)) (uint (1000 :: uint16)) = - 50 \<and>
   sint (- 49 :: int32) = - 49"
  by (simp add: steadyRun_1000 round_half_up_def)

lemma lastCycle_tick:
  "gyroUpdate ideal (Some steadySample) (lastCycle 0) = steadyRun 0 1000"
  using steadyRun_Suc [of 0 999] by (simp add: steadyRun_999)

lemma firstCycle_tick:
  "gyroUpdate ideal (Some steadySample) ((poweron t)\<lparr>calibratingG := 1000\<rparr>) =
     Some (midCalibration ideal 1 (Vec 100 (- 50) 0) ((poweron t)\<lparr>calibratingG := 1000\<rparr>))"
  using steady_calibration [of ideal "(poweron t)\<lparr>calibratingG := 1000\<rparr>" steadySample "Vec 100 (- 50) 0" 1]
  by (simp split: option.splits)

lemma poweron_tick:
  "gyroUpdate ideal (Some steadySample) (poweron t) =
     Some ((poweron t)\<lparr>gyroADC := Vec 100 (- 50) 0, gyroADCf := Vec 100 (- 50) 0\<rparr>)"
  by (simp add: gyroUpdate_Some gyroSample_complete gyroFilter_bypass vec_of_def)
    (simp add: zeroSubtracted_def sampled_def vec_of_def)

lemma notchesConfigured_tick:
  "gyroUpdate ideal (Some steadySample) notchesConfigured =
     Some (notchesConfigured\<lparr>gyroADC := Vec 100 (- 50) 0, gyroADCf := Vec 100 (- 50) 0\<rparr>)"
  unfolding notchesConfigured_def
  by (simp add: gyroUpdate_Some gyroSample_complete gyroFilter_bypass vec_of_def)
    (simp add: zeroSubtracted_def sampled_def vec_of_def)

lemma lrintf_half: "lrintf_libm (1 / 2) = 0" "lrintf_libm 0 = 0"
  by (simp_all add: lrintf_libm_def round_half_even_def)

lemma denoising_tick:
  "gyroUpdate ideal (Some turnSample) denoising =
     Some (denoising\<lparr>gyroADC := Vec 0 0 0, gyroADCf := Vec (1 / 2) 0 0,
                     gyroDenoiseState := Vec [1, 0] [0, 0] [0, 0]\<rparr>)"
proof -
  have s: "gyroSample ideal turnSample denoising = Some (denoising\<lparr>gyroADC := Vec 1 0 0\<rparr>)"
    by (simp add: gyroSample_complete denoising_def)
      (simp add: zeroSubtracted_def sampled_def gyroAligned_def turnSample_def vec_of_def)
  have f: "filterAxis ideal u a =
      u\<lparr>gyroDenoiseState := set_axis (gyroDenoiseState u) a
           (fst (firFilterDenoiseUpdate_spec (get_axis (gyroDenoiseState u) a)
                  (real_of_int (sint (get_axis (gyroADC u) a))))),
        gyroADCf := set_axis (gyroADCf u) a
           (snd (firFilterDenoiseUpdate_spec (get_axis (gyroDenoiseState u) a)
                  (real_of_int (sint (get_axis (gyroADC u) a))))),
        gyroADC := set_axis (gyroADC u) a
           (lrintf_libm (snd (firFilterDenoiseUpdate_spec (get_axis (gyroDenoiseState u) a)
                  (real_of_int (sint (get_axis (gyroADC u) a))))))\<rparr>"
    if "gyroSoftLpfType u = 2" "debugMode u = 0" "gyroSoftNotchHz1 u = 0" "gyroSoftNotchHz2 u = 0"
    for u :: "(stdev, real, biquad, real, real list) gyro_state" and a
    using that
    by (simp add: filterAxis_def tapGyro_def lowpassStage_def tapNotch_def notchStage1_def
        notchStage2_def roundOutput_def split_def Let_def)
  show ?thesis
    unfolding gyroUpdate_Some s
    by (simp add: gyroFilter_def f denoising_def poweron_def firFilterDenoiseUpdate_spec_def
        lrintf_half)
qed

text \<open>
  C7, as stated, fails: with the denoiser averaging the samples 0 and 1, the published
  floating point output of the first axis is 1/2 and the published integer output is 0,
  where rounding halves away from zero gives 1.
\<close>

theorem lrintf_rounds_half_to_even:
  "map_option gyroADCf (gyroUpdate ideal (Some turnSample) denoising) = Some (Vec (1 / 2) 0 0) \<and>
   map_option gyroADC (gyroUpdate ideal (Some turnSample) denoising) = Some (Vec 0 0 0) \<and>
   round_nearest_ties_away_from_zero (1 / 2) = 1"
  by (simp add: denoising_tick round_nearest_ties_away_from_zero_def)


lemma lastCycle_still:
  "\<not> movementDetected ideal 0 (accumulatedVar ideal (sampled ideal steadySample (lastCycle 0)) a)"
  by (simp add: movementDetected_def)

text \<open>
  The three cases on the scenario: a tick after start-up, the first tick of the
  calibration, and its final tick.
\<close>

theorem zero_offset_written_witness:
  "calibratingG (poweron 0) = 0 \<and>
   map_option gyroZero (gyroUpdate ideal (Some steadySample) (poweron 0)) = Some (gyroZero (poweron 0)) \<and>
   calibratingG ((poweron 0)\<lparr>calibratingG := 1000\<rparr>) \<noteq> 0 \<and>
   calibratingG ((poweron 0)\<lparr>calibratingG := 1000\<rparr>) \<noteq> 1 \<and>
   map_option gyroZero (gyroUpdate ideal (Some steadySample) ((poweron 0)\<lparr>calibratingG := 1000\<rparr>)) =
     Some (Vec 0 0 0) \<and>
   calibratingG (lastCycle 0) = 1 \<and>
   \<not> movementDetected ideal 0 (accumulatedVar ideal (sampled ideal steadySample (lastCycle 0)) X) \<and>
   \<not> movementDetected ideal 0 (accumulatedVar ideal (sampled ideal steadySample (lastCycle 0)) Y) \<and>
   \<not> movementDetected ideal 0 (accumulatedVar ideal (sampled ideal steadySample (lastCycle 0)) Z) \<and>
   map_option gyroZero (gyroUpdate ideal (Some steadySample) (lastCycle 0)) = Some (Vec 100 (- 49) 0) \<and>
   map_option calibratingG (gyroUpdate ideal (Some steadySample) (lastCycle 0)) = Some 0"
proof -
  have 3: "gyroUpdate ideal (Some steadySample) (lastCycle 0) =
      Some (the (gyroUpdate ideal (Some steadySample) (lastCycle 0)))"
    by (simp add: lastCycle_tick steadyRun_1000)
  show ?thesis
    using zero_offset_written [OF poweron_tick [of 0]]
      zero_offset_written [OF firstCycle_tick [of 0]]
      zero_offset_written [OF 3] lastCycle_still
    by (simp add: poweron_tick firstCycle_tick lastCycle_tick steadyRun_1000 vec_of_def)
qed

text \<open>The first tick of the calibration publishes zeros.\<close>

lemma first_tick_publishes_zero:
  "calibratingG ((poweron 0)\<lparr>calibratingG := 1000\<rparr>) \<noteq> 0 \<and>
   calibratingG ((poweron 0)\<lparr>calibratingG := 1000\<rparr>) \<noteq> 1 \<and>
   gyroSoftLpfHz ((poweron 0)\<lparr>calibratingG := 1000\<rparr>) = 0 \<and>
   map_option gyroADC (gyroUpdate ideal (Some steadySample) ((poweron 0)\<lparr>calibratingG := 1000\<rparr>)) =
     Some (Vec 0 0 0) \<and>
   map_option gyroADCf (gyroUpdate ideal (Some steadySample) ((poweron 0)\<lparr>calibratingG := 1000\<rparr>)) =
     Some (Vec 0 0 0) \<and>
   map_option gyroZero (gyroUpdate ideal (Some steadySample) ((poweron 0)\<lparr>calibratingG := 1000\<rparr>)) =
     Some (Vec 0 0 0)"
  using calibration_tick_publishes_zero [OF firstCycle_tick [of 0]]
  by (simp add: firstCycle_tick midCalibration_def vec_of_def)

text \<open>Both notch frequencies nonzero, low-pass filter disabled: the sample passes unfiltered.\<close>

theorem lowpass_disabled_bypass_witness:
  "gyroSoftLpfHz notchesConfigured = 0 \<and>
   gyroSoftNotchHz1 notchesConfigured = 400 \<and> gyroSoftNotchHz2 notchesConfigured = 200 \<and>
   map_option gyroADCf (gyroUpdate ideal (Some steadySample) notchesConfigured) =
     Some (Vec 100 (- 50) 0) \<and>
   map_option gyroFilterNotch_1 (gyroUpdate ideal (Some steadySample) notchesConfigured) =
     Some (gyroFilterNotch_1 notchesConfigured) \<and>
   map_option gyroFilterNotch_2 (gyroUpdate ideal (Some steadySample) notchesConfigured) =
     Some (gyroFilterNotch_2 notchesConfigured)"
proof -
  have lpf: "gyroSoftLpfHz notchesConfigured = 0" by (simp add: notchesConfigured_def)
  show ?thesis
    using lowpass_disabled_bypass [OF lpf notchesConfigured_tick]
    by (simp add: notchesConfigured_tick) (simp add: notchesConfigured_def)
qed

text \<open>One tick with the denoiser enabled, one with the low-pass filter disabled.\<close>

theorem published_integer_is_lrintf_witness:
  "gyroSoftLpfHz denoising \<noteq> 0 \<and>
   map_option gyroADC (gyroUpdate ideal (Some turnSample) denoising) =
     Some (Vec (lrintf ideal (1 / 2)) (lrintf ideal 0) (lrintf ideal 0)) \<and>
   map_option gyroADCf (gyroUpdate ideal (Some turnSample) denoising) = Some (Vec (1 / 2) 0 0) \<and>
   gyroSoftLpfHz (poweron 0) = 0 \<and>
   map_option gyroADC (gyroUpdate ideal (Some steadySample) (poweron 0)) = Some (Vec 100 (- 50) 0) \<and>
   map_option gyroADCf (gyroUpdate ideal (Some steadySample) (poweron 0)) =
     Some (Vec (float_of_int32 ideal 100) (float_of_int32 ideal (- 50)) (float_of_int32 ideal 0))"
  using published_integer_is_lrintf [OF denoising_tick] published_integer_is_lrintf [OF poweron_tick [of 0]]
  by (simp add: denoising_tick poweron_tick lrintf_half) (simp add: denoising_def)

text \<open>
  A restart on the final cycle of the scenario, once with the accumulators as they are
  and once with the accumulators of start-up.
\<close>

theorem begin_calibration_window_witness:
  "targetLooptime (lastCycle 0) \<noteq> 0 \<and>
   gyroSetCalibrationCycles ideal (lastCycle 0) = Some ((lastCycle 0)\<lparr>calibratingG := 1000\<rparr>) \<and>
   rel_option sameButAccumulators
     (Option.bind (gyroSetCalibrationCycles ideal (lastCycle 0))
        (gyroUpdates ideal [Some steadySample, None, Some movedSample]))
     (Option.bind (gyroSetCalibrationCycles ideal ((lastCycle 0)\<lparr>g := Vec 0 0 0, var := var (poweron 0)\<rparr>))
        (gyroUpdates ideal [Some steadySample, None, Some movedSample]))"
proof -
  have 1: "(devClear ideal v) = (devClear ideal w)" for v w
    by (simp add: devClear_spec_def)
  have 2: "targetLooptime (lastCycle 0) \<noteq> 0" by simp
  have n: "(ucast (CALIBRATING_GYRO_CYCLES ideal div targetLooptime (lastCycle 0)
                    * CALIBRATING_GYRO_CYCLES ideal) :: uint16) = 1000"
    by simp
  note w = begin_calibration_window [where E = "(=)" and ext = ideal and s = "lastCycle 0"
        and rds = "[Some steadySample, None, Some movedSample]" and G = "Vec 0 0 0"
        and V = "var (poweron 0)", OF 1 _ _ 2, simplified n]
  have "gyroSetCalibrationCycles ideal (lastCycle 0) = Some ((lastCycle 0)\<lparr>calibratingG := 1000\<rparr>)"
    by (rule w [THEN conjunct1]) simp_all
  moreover have "rel_option sameButAccumulators
     (Option.bind (gyroSetCalibrationCycles ideal (lastCycle 0))
        (gyroUpdates ideal [Some steadySample, None, Some movedSample]))
     (Option.bind (gyroSetCalibrationCycles ideal ((lastCycle 0)\<lparr>g := Vec 0 0 0, var := var (poweron 0)\<rparr>))
        (gyroUpdates ideal [Some steadySample, None, Some movedSample]))"
    by (rule w [THEN conjunct2, THEN conjunct2]) simp_all
  ultimately show ?thesis using 2 by (intro conjI)
qed

subsection \<open>A tick without a sample\<close>

text \<open>
  C8.  When \<^verbatim>\<open>gyro.read\<close> reports that no sample is available, \<^verbatim>\<open>gyroUpdate\<close>
  returns at once: the published integer and floating point outputs, the zero offsets,
  the countdown, the accumulators and every filter state are what they were before the
  tick.
\<close>

theorem gyroUpdate_unavailable: "gyroUpdate ext None s = Some s"
  by (simp add: gyroUpdate_def)

end
